theory Spec2Isabelle
  imports Complex_Main "HOL-Library.Monad_Syntax"
begin

section \<open>Micromagnetic mean-field relaxation: the embedding\<close>

text \<open>
  The program is NumPy code over arrays of IEEE doubles. The embedding keeps what
  decides the control flow of the program: a value is a finite number, an infinity or
  NaN, division by zero yields an infinity or NaN as NumPy does (it warns and goes on),
  NaN makes every closeness test false, and an array carries its shape, so that
  broadcasting can succeed or raise ValueError (the value \<open>None\<close>). Finite values
  are exact reals: rounding, overflow and the sign of zero are not modelled.
\<close>

subsection \<open>Numbers\<close>

datatype npfloat = Fin real | PInf | NInf | NaN

fun fneg :: "npfloat \<Rightarrow> npfloat" where
  "fneg (Fin a) = Fin (- a)"
| "fneg PInf = NInf"
| "fneg NInf = PInf"
| "fneg NaN = NaN"

fun fadd :: "npfloat \<Rightarrow> npfloat \<Rightarrow> npfloat" where
  "fadd (Fin a) (Fin b) = Fin (a + b)"
| "fadd NaN y = NaN"
| "fadd x NaN = NaN"
| "fadd PInf NInf = NaN"
| "fadd NInf PInf = NaN"
| "fadd PInf y = PInf"
| "fadd x PInf = PInf"
| "fadd NInf y = NInf"
| "fadd x NInf = NInf"

definition fsub :: "npfloat \<Rightarrow> npfloat \<Rightarrow> npfloat" where
  "fsub x y = fadd x (fneg y)"

definition inf_of :: "bool \<Rightarrow> npfloat" where
  "inf_of pos = (if pos then PInf else NInf)"

fun fmul :: "npfloat \<Rightarrow> npfloat \<Rightarrow> npfloat" where
  "fmul (Fin a) (Fin b) = Fin (a * b)"
| "fmul NaN y = NaN"
| "fmul x NaN = NaN"
| "fmul (Fin a) PInf = (if a = 0 then NaN else inf_of (0 < a))"
| "fmul (Fin a) NInf = (if a = 0 then NaN else inf_of (a < 0))"
| "fmul PInf (Fin b) = (if b = 0 then NaN else inf_of (0 < b))"
| "fmul NInf (Fin b) = (if b = 0 then NaN else inf_of (b < 0))"
| "fmul PInf PInf = PInf"
| "fmul PInf NInf = NInf"
| "fmul NInf PInf = NInf"
| "fmul NInf NInf = PInf"

fun fdiv :: "npfloat \<Rightarrow> npfloat \<Rightarrow> npfloat" where
  "fdiv (Fin a) (Fin b) =
     (if b = 0 then (if a = 0 then NaN else inf_of (0 < a)) else Fin (a / b))"
| "fdiv NaN y = NaN"
| "fdiv x NaN = NaN"
| "fdiv (Fin a) PInf = Fin 0"
| "fdiv (Fin a) NInf = Fin 0"
| "fdiv PInf (Fin b) = inf_of (0 \<le> b)"
| "fdiv NInf (Fin b) = inf_of (b < 0)"
| "fdiv PInf PInf = NaN"
| "fdiv PInf NInf = NaN"
| "fdiv NInf PInf = NaN"
| "fdiv NInf NInf = NaN"

fun fabs :: "npfloat \<Rightarrow> npfloat" where
  "fabs (Fin a) = Fin \<bar>a\<bar>"
| "fabs PInf = PInf"
| "fabs NInf = PInf"
| "fabs NaN = NaN"

fun fsqrt :: "npfloat \<Rightarrow> npfloat" where
  "fsqrt (Fin a) = (if a < 0 then NaN else Fin (sqrt a))"
| "fsqrt PInf = PInf"
| "fsqrt NInf = NaN"
| "fsqrt NaN = NaN"

fun ftanh :: "npfloat \<Rightarrow> npfloat" where
  "ftanh (Fin a) = Fin (tanh a)"
| "ftanh PInf = Fin 1"
| "ftanh NInf = Fin (- 1)"
| "ftanh NaN = NaN"

text \<open>\<open>np.max\<close> is a reduction by the maximum that lets NaN through.\<close>

fun fmax :: "npfloat \<Rightarrow> npfloat \<Rightarrow> npfloat" where
  "fmax (Fin a) (Fin b) = Fin (max a b)"
| "fmax NaN y = NaN"
| "fmax x NaN = NaN"
| "fmax PInf y = PInf"
| "fmax x PInf = PInf"
| "fmax NInf y = y"
| "fmax x NInf = x"

text \<open>
  \<open>np.isclose(a, b, rtol, atol)\<close>: \<open>|a - b| \<le> atol + rtol * |b|\<close> where both are finite,
  equality otherwise, and NaN is close to nothing.
\<close>

fun isclose :: "real \<Rightarrow> real \<Rightarrow> npfloat \<Rightarrow> npfloat \<Rightarrow> bool" where
  "isclose rtol atol (Fin a) (Fin b) = (\<bar>a - b\<bar> \<le> atol + rtol * \<bar>b\<bar>)"
| "isclose rtol atol NaN y = False"
| "isclose rtol atol x NaN = False"
| "isclose rtol atol x y = (x = y)"

definition rtol_default :: real where
  "rtol_default = 1 / 10 ^ 5"

definition atol_default :: real where
  "atol_default = 1 / 10 ^ 8"

subsection \<open>Arrays\<close>

text \<open>
  A cell of a field holds the three components of the last axis; an array of shape
  \<open>(nx, ny, nz, 3)\<close> is an array of cells, one of shape \<open>(nx, ny, nz, 1)\<close> or
  \<open>(nx, ny, nz)\<close> an array of numbers.
\<close>

datatype vec3 = Vec3 (c0: npfloat) (c1: npfloat) (c2: npfloat)

type_synonym dims = "nat \<times> nat \<times> nat"

datatype 'a ndarray = NDArray (shape: dims) (data: "nat \<Rightarrow> nat \<Rightarrow> nat \<Rightarrow> 'a")

fun n0 :: "dims \<Rightarrow> nat" where "n0 (a, b, c) = a"
fun n1 :: "dims \<Rightarrow> nat" where "n1 (a, b, c) = b"
fun n2 :: "dims \<Rightarrow> nat" where "n2 (a, b, c) = c"

definition cells :: "dims \<Rightarrow> (nat \<times> nat \<times> nat) list" where
  "cells s = concat (map (\<lambda>i. concat (map (\<lambda>j. map (\<lambda>k. (i, j, k)) [0..<n2 s]) [0..<n1 s])) [0..<n0 s])"

definition item :: "'a ndarray \<Rightarrow> nat \<times> nat \<times> nat \<Rightarrow> 'a" where
  "item a c = (case c of (i, j, k) \<Rightarrow> data a i j k)"

definition all_cells :: "('a \<Rightarrow> bool) \<Rightarrow> 'a ndarray \<Rightarrow> bool" where
  "all_cells P a = list_all (\<lambda>c. P (item a c)) (cells (shape a))"

definition map_nd :: "('a \<Rightarrow> 'b) \<Rightarrow> 'a ndarray \<Rightarrow> 'b ndarray" where
  "map_nd f a = NDArray (shape a) (\<lambda>i j k. f (data a i j k))"

definition full :: "dims \<Rightarrow> 'a \<Rightarrow> 'a ndarray" where
  "full s v = NDArray s (\<lambda>i j k. v)"

definition vzero :: vec3 where
  "vzero = Vec3 (Fin 0) (Fin 0) (Fin 0)"

definition zeros_like :: "vec3 ndarray \<Rightarrow> vec3 ndarray" where
  "zeros_like a = full (shape a) vzero"

definition zeros :: "dims \<Rightarrow> npfloat ndarray" where
  "zeros s = full s (Fin 0)"

text \<open>
  Broadcasting of two shapes of the same rank: along each axis the lengths are equal or
  one of them is 1; otherwise NumPy raises ValueError.
\<close>

definition bc1 :: "nat \<Rightarrow> nat \<Rightarrow> nat option" where
  "bc1 a b = (if a = b then Some a else if a = 1 then Some b else if b = 1 then Some a else None)"

definition broadcast_shapes :: "dims \<Rightarrow> dims \<Rightarrow> dims option" where
  "broadcast_shapes s t =
     (case (bc1 (n0 s) (n0 t), bc1 (n1 s) (n1 t), bc1 (n2 s) (n2 t)) of
        (Some a, Some b, Some c) \<Rightarrow> Some (a, b, c)
      | _ \<Rightarrow> None)"

definition bidx :: "nat \<Rightarrow> nat \<Rightarrow> nat \<Rightarrow> nat" where
  "bidx n m i = (if n = m then i else 0)"

definition broadcast_to :: "'a ndarray \<Rightarrow> dims \<Rightarrow> 'a ndarray" where
  "broadcast_to a s =
     NDArray s (\<lambda>i j k. data a (bidx (n0 (shape a)) (n0 s) i) (bidx (n1 (shape a)) (n1 s) j)
                              (bidx (n2 (shape a)) (n2 s) k))"

definition ufunc2 :: "('a \<Rightarrow> 'b \<Rightarrow> 'c) \<Rightarrow> 'a ndarray \<Rightarrow> 'b ndarray \<Rightarrow> 'c ndarray option" where
  "ufunc2 f a b =
     (case broadcast_shapes (shape a) (shape b) of
        None \<Rightarrow> None
      | Some s \<Rightarrow> Some (NDArray s (\<lambda>i j k. f (data (broadcast_to a s) i j k)
                                              (data (broadcast_to b s) i j k))))"

text \<open>An in-place \<open>a += b\<close>: the right-hand side has to broadcast to the shape of \<open>a\<close>.\<close>

definition iadd :: "('a \<Rightarrow> 'b \<Rightarrow> 'a) \<Rightarrow> 'a ndarray \<Rightarrow> 'b ndarray \<Rightarrow> 'a ndarray option" where
  "iadd f a b =
     (if broadcast_shapes (shape a) (shape b) = Some (shape a) then ufunc2 f a b else None)"

subsection \<open>Cells\<close>

definition vmap :: "(npfloat \<Rightarrow> npfloat) \<Rightarrow> vec3 \<Rightarrow> vec3" where
  "vmap f v = Vec3 (f (c0 v)) (f (c1 v)) (f (c2 v))"

definition vzip :: "(npfloat \<Rightarrow> npfloat \<Rightarrow> npfloat) \<Rightarrow> vec3 \<Rightarrow> vec3 \<Rightarrow> vec3" where
  "vzip f v w = Vec3 (f (c0 v) (c0 w)) (f (c1 v) (c1 w)) (f (c2 v) (c2 w))"

text \<open>An operation between a cell and the number of a last axis of length 1.\<close>

definition vscal :: "(npfloat \<Rightarrow> npfloat \<Rightarrow> npfloat) \<Rightarrow> vec3 \<Rightarrow> npfloat \<Rightarrow> vec3" where
  "vscal f v s = vmap (\<lambda>x. f x s) v"

definition scalv :: "(npfloat \<Rightarrow> npfloat \<Rightarrow> npfloat) \<Rightarrow> npfloat \<Rightarrow> vec3 \<Rightarrow> vec3" where
  "scalv f s v = vmap (\<lambda>x. f s x) v"

definition vsum :: "vec3 \<Rightarrow> npfloat" where
  "vsum v = fadd (fadd (c0 v) (c1 v)) (c2 v)"

text \<open>
  \<open>np.linalg.norm(a, axis=3)\<close>: the square root of the sum of the squares. The norm here
  is exact. In the program the squares are doubles: they overflow to infinity above about
  \<open>1.3e154\<close> and underflow to zero below about \<open>1e-154\<close>, so a statement about magnitudes
  carries bounds on the components.
\<close>

definition vnorm :: "vec3 \<Rightarrow> npfloat" where
  "vnorm v = fsqrt (vsum (vzip fmul v v))"

definition vall :: "(npfloat \<Rightarrow> bool) \<Rightarrow> vec3 \<Rightarrow> bool" where
  "vall P v = (P (c0 v) \<and> P (c1 v) \<and> P (c2 v))"

text \<open>\<open>np.allclose(a, 0)\<close> and \<open>np.allclose(a, 0, atol=tol)\<close>.\<close>

definition allclose0 :: "real \<Rightarrow> npfloat ndarray \<Rightarrow> bool" where
  "allclose0 atol a = all_cells (\<lambda>x. isclose rtol_default atol x (Fin 0)) a"

definition vallclose0 :: "real \<Rightarrow> vec3 ndarray \<Rightarrow> bool" where
  "vallclose0 atol a = all_cells (vall (\<lambda>x. isclose rtol_default atol x (Fin 0))) a"

subsection \<open>The constants of Energy_Term.py\<close>

definition mu0 :: real where
  "mu0 = 4 * pi * (1 / 10 ^ 7)"

definition dx :: real where "dx = 25 / 10 ^ 10"
definition dy :: real where "dy = 25 / 10 ^ 10"
definition dz :: real where "dz = 25 / 10 ^ 10"

definition Nx :: nat where "Nx = 60"
definition Ny :: nat where "Ny = 60"
definition Nz :: nat where "Nz = 12"

subsection \<open>The class M\<close>

record M_class =
  M :: "vec3 ndarray"

definition get_M :: "M_class \<Rightarrow> vec3 ndarray" where
  "get_M m = M m"

definition get_Ms :: "M_class \<Rightarrow> npfloat ndarray" where
  "get_Ms m = map_nd vnorm (M m)"

definition get_m :: "M_class \<Rightarrow> vec3 ndarray option" where
  "get_m m =
     (if vallclose0 atol_default (get_M m) then Some (zeros_like (get_M m))
      else ufunc2 (vscal fdiv) (M m) (get_Ms m))"

definition set_M :: "M_class \<Rightarrow> vec3 ndarray \<Rightarrow> M_class" where
  "set_M m M_new = m\<lparr>M := M_new\<rparr>"

text \<open>
  \<open>np.pad\<close> by one cell on each side of the three spatial axes. Mode \<open>edge\<close> repeats
  the nearest cell and raises ValueError on an empty axis; mode \<open>constant\<close> fills with
  the given value.
\<close>

definition clamp :: "nat \<Rightarrow> nat \<Rightarrow> nat" where
  "clamp n i = min (i - 1) (n - 1)"

definition pad_edge :: "'a ndarray \<Rightarrow> 'a ndarray option" where
  "pad_edge a =
     (case shape a of (nx, ny, nz) \<Rightarrow>
        if nx = 0 \<or> ny = 0 \<or> nz = 0 then None
        else Some (NDArray (nx + 2, ny + 2, nz + 2)
                     (\<lambda>i j k. data a (clamp nx i) (clamp ny j) (clamp nz k))))"

definition inside :: "nat \<Rightarrow> nat \<Rightarrow> bool" where
  "inside n i = (1 \<le> i \<and> i \<le> n)"

definition pad_constant :: "'a \<Rightarrow> 'a ndarray \<Rightarrow> 'a ndarray" where
  "pad_constant v a =
     (case shape a of (nx, ny, nz) \<Rightarrow>
        NDArray (nx + 2, ny + 2, nz + 2)
          (\<lambda>i j k. if inside nx i \<and> inside ny j \<and> inside nz k
                   then data a (i - 1) (j - 1) (k - 1) else v))"

text \<open>
  The slices of a padded array: along an axis of length \<open>n\<close>, \<open>[0:-2]\<close>, \<open>[1:-1]\<close> and
  \<open>[2:]\<close> all have length \<open>n - 2\<close> (0 when \<open>n < 2\<close>) and start at 0, 1 and 2.
\<close>

definition window :: "nat \<times> nat \<times> nat \<Rightarrow> 'a ndarray \<Rightarrow> 'a ndarray" where
  "window off a =
     (case off of (oi, oj, ok) \<Rightarrow>
        NDArray (n0 (shape a) - 2, n1 (shape a) - 2, n2 (shape a) - 2)
          (\<lambda>i j k. data a (i + oi) (j + oj) (k + ok)))"

text \<open>The second difference along one axis, as each of the three statements of \<open>laplace\<close> has it.\<close>

definition second_diff ::
  "vec3 ndarray \<Rightarrow> nat \<times> nat \<times> nat \<Rightarrow> nat \<times> nat \<times> nat \<Rightarrow> real \<Rightarrow> vec3 ndarray option" where
  "second_diff m_pad lo hi h = do {
     s \<leftarrow> ufunc2 (vzip fadd) (window lo m_pad) (window hi m_pad);
     d \<leftarrow> ufunc2 (vzip fsub) s (map_nd (scalv fmul (Fin 2)) (window (1, 1, 1) m_pad));
     Some (map_nd (\<lambda>v. vscal fdiv v (Fin (h ^ 2))) d)
   }"

definition laplace :: "M_class \<Rightarrow> vec3 ndarray option" where
  "laplace m = do {
     u \<leftarrow> get_m m;
     let lap = zeros_like u;
     m_pad \<leftarrow> pad_edge u;
     tx \<leftarrow> second_diff m_pad (0, 1, 1) (2, 1, 1) dx;
     lap \<leftarrow> iadd (vzip fadd) lap tx;
     ty \<leftarrow> second_diff m_pad (1, 0, 1) (1, 2, 1) dy;
     lap \<leftarrow> iadd (vzip fadd) lap ty;
     tz \<leftarrow> second_diff m_pad (1, 1, 0) (1, 1, 2) dz;
     lap \<leftarrow> iadd (vzip fadd) lap tz;
     Some lap
   }"

text \<open>
  A first-order central difference of one component along one axis, as each of the six
  statements of \<open>curl\<close> has it, added in place to a temporary of the global shape.
\<close>

definition central_diff ::
  "vec3 ndarray \<Rightarrow> (vec3 \<Rightarrow> npfloat) \<Rightarrow> nat \<times> nat \<times> nat \<Rightarrow> nat \<times> nat \<times> nat \<Rightarrow> real
     \<Rightarrow> npfloat ndarray option" where
  "central_diff m_pad sel hi lo h = do {
     d \<leftarrow> ufunc2 fsub (map_nd sel (window hi m_pad)) (map_nd sel (window lo m_pad));
     iadd fadd (zeros (Nx, Ny, Nz)) (map_nd (\<lambda>x. fdiv x (Fin (2 * h))) d)
   }"

definition add_c0 :: "vec3 \<Rightarrow> npfloat \<Rightarrow> vec3" where
  "add_c0 v x = Vec3 (fadd (c0 v) x) (c1 v) (c2 v)"

definition add_c1 :: "vec3 \<Rightarrow> npfloat \<Rightarrow> vec3" where
  "add_c1 v x = Vec3 (c0 v) (fadd (c1 v) x) (c2 v)"

definition add_c2 :: "vec3 \<Rightarrow> npfloat \<Rightarrow> vec3" where
  "add_c2 v x = Vec3 (c0 v) (c1 v) (fadd (c2 v) x)"

definition curl :: "M_class \<Rightarrow> vec3 ndarray option" where
  "curl m = do {
     u \<leftarrow> get_m m;
     let curl0 = zeros_like u;
     let m_pad = pad_constant vzero u;
     dzdy \<leftarrow> central_diff m_pad c2 (1, 2, 1) (1, 0, 1) dy;
     dydz \<leftarrow> central_diff m_pad c1 (1, 1, 2) (1, 1, 0) dz;
     dxdz \<leftarrow> central_diff m_pad c0 (1, 1, 2) (1, 1, 0) dz;
     dzdx \<leftarrow> central_diff m_pad c2 (2, 1, 1) (0, 1, 1) dx;
     dxdy \<leftarrow> central_diff m_pad c0 (1, 2, 1) (1, 0, 1) dy;
     dydx \<leftarrow> central_diff m_pad c1 (2, 1, 1) (0, 1, 1) dx;
     r0 \<leftarrow> ufunc2 fsub dzdy dydz;
     curl1 \<leftarrow> iadd add_c0 curl0 r0;
     r1 \<leftarrow> ufunc2 fsub dxdz dzdx;
     curl2 \<leftarrow> iadd add_c1 curl1 r1;
     r2 \<leftarrow> ufunc2 fsub dydx dxdy;
     iadd add_c2 curl2 r2
   }"

subsection \<open>The energy terms\<close>

datatype EnergyTerm = Exchange real | DMI real | Zeeman vec3

text \<open>\<open>np.tile(H, n)\<close> of a tuple and the row-major \<open>reshape((Nx, Ny, Nz, 3))\<close>.\<close>

definition tile :: "'a list \<Rightarrow> nat \<Rightarrow> 'a list" where
  "tile xs n = concat (replicate n xs)"

definition flat_index :: "dims \<Rightarrow> nat \<Rightarrow> nat \<Rightarrow> nat \<Rightarrow> nat \<Rightarrow> nat" where
  "flat_index s i j k c = ((i * n1 s + j) * n2 s + k) * 3 + c"

definition reshape :: "npfloat list \<Rightarrow> dims \<Rightarrow> vec3 ndarray option" where
  "reshape xs s =
     (if length xs = n0 s * n1 s * n2 s * 3
      then Some (NDArray s (\<lambda>i j k. Vec3 (xs ! flat_index s i j k 0) (xs ! flat_index s i j k 1)
                                          (xs ! flat_index s i j k 2)))
      else None)"

fun effective_field :: "EnergyTerm \<Rightarrow> M_class \<Rightarrow> vec3 ndarray option" where
  "effective_field (Exchange a) m =
     (if vallclose0 atol_default (get_M m) then Some (zeros_like (get_M m))
      else do {
        lap \<leftarrow> laplace m;
        ufunc2 (scalv fmul) (map_nd (\<lambda>x. fdiv (Fin (2 * a)) (fmul (Fin mu0) x)) (get_Ms m)) lap
      })"
| "effective_field (DMI d) m =
     (if vallclose0 atol_default (get_M m) then Some (zeros_like (get_M m))
      else do {
        c \<leftarrow> curl m;
        ufunc2 (scalv fmul)
          (map_nd (\<lambda>x. fneg (fdiv (Fin (2 * d)) (fmul (Fin mu0) x))) (get_Ms m)) c
      })"
| "effective_field (Zeeman h) m =
     reshape (tile [c0 h, c1 h, c2 h] (Nx * Ny * Nz)) (Nx, Ny, Nz)"

text \<open>The formula of the base class, and the override of \<open>Zeeman\<close>.\<close>

fun energy_density :: "EnergyTerm \<Rightarrow> M_class \<Rightarrow> npfloat ndarray option" where
  "energy_density (Zeeman h) m = do {
     u \<leftarrow> get_m m;
     e \<leftarrow> effective_field (Zeeman h) m;
     val \<leftarrow> ufunc2 (vzip fmul) u e;
     ufunc2 fmul (map_nd (fmul (Fin (- mu0))) (get_Ms m)) (map_nd vsum val)
   }"
| "energy_density t m = do {
     u \<leftarrow> get_m m;
     e \<leftarrow> effective_field t m;
     value1 \<leftarrow> ufunc2 (vzip fmul) u e;
     value2 \<leftarrow> ufunc2 (scalv fmul) (get_Ms m) value1;
     Some (map_nd (\<lambda>v. fmul (Fin (- mu0 / 2)) (vsum v)) value2)
   }"

text \<open>
  \<open>np.sum\<close> over every cell. With exact finite values the order of the summation does
  not change the sum: it is NaN when a summand is NaN or both infinities occur, else an
  infinity when one occurs, else the real sum.
\<close>

definition sum_nd :: "npfloat ndarray \<Rightarrow> npfloat" where
  "sum_nd a = foldl fadd (Fin 0) (map (item a) (cells (shape a)))"

definition energy :: "EnergyTerm \<Rightarrow> M_class \<Rightarrow> npfloat option" where
  "energy t m = do {
     w \<leftarrow> energy_density t m;
     let dV = dx * dy * dz;
     Some (sum_nd (map_nd (\<lambda>e. fmul e (Fin dV)) w))
   }"

subsection \<open>Mean_Field.py\<close>

definition beta :: real where "beta = 9 * 10 ^ 99"
definition D :: real where "D = 158 / 10 ^ 5"
definition A :: real where "A = 878 / 10 ^ 14"
definition B :: real where "B = 2 / 10"
definition H :: vec3 where "H = Vec3 (Fin 0) (Fin 0) (fdiv (Fin B) (Fin mu0))"
definition maxiter :: nat where "maxiter = 12000"
definition lamda_default :: real where "lamda_default = 5 / 1000"
definition tol_default :: real where "tol_default = 1 / 10 ^ 4"

definition Langevin :: "npfloat ndarray \<Rightarrow> npfloat ndarray" where
  "Langevin x = map_nd (\<lambda>v. fsub (fdiv (Fin 1) (ftanh v)) (fdiv (Fin 1) v)) x"

definition cal_effective_field :: "M_class \<Rightarrow> (vec3 ndarray \<times> npfloat) option" where
  "cal_effective_field m = do {
     Heff_ex_my \<leftarrow> effective_field (Exchange A) m;
     Heff_z_my \<leftarrow> effective_field (Zeeman H) m;
     Heff_dmi_my \<leftarrow> effective_field (DMI D) m;
     s \<leftarrow> ufunc2 (vzip fadd) Heff_ex_my Heff_z_my;
     H_eff \<leftarrow> ufunc2 (vzip fadd) s Heff_dmi_my;
     E_ex \<leftarrow> energy (Exchange A) m;
     E_z \<leftarrow> energy (Zeeman H) m;
     E_dmi \<leftarrow> energy (DMI D) m;
     Some (H_eff, fadd (fadd E_ex E_z) E_dmi)
   }"

text \<open>\<open>L_result\<close> is the integer 1 at zero temperature and an array otherwise.\<close>

datatype L_value = L_scalar npfloat | L_array "npfloat ndarray"

fun L_times :: "L_value \<Rightarrow> vec3 ndarray \<Rightarrow> vec3 ndarray option" where
  "L_times (L_scalar c) a = Some (map_nd (scalv fmul c) a)"
| "L_times (L_array l) a = ufunc2 (scalv fmul) l a"

definition update_M :: "M_class \<Rightarrow> vec3 ndarray \<Rightarrow> real \<Rightarrow> vec3 ndarray option" where
  "update_M m H_eff lamda =
     (let M_old = get_M m;
          Ms_old = get_Ms m;
          H_norm = map_nd vnorm H_eff;
          L_result = (if beta = 9 * 10 ^ 99 then L_scalar (Fin 1)
                      else L_array (Langevin (map_nd (fmul (Fin (beta * mu0))) H_norm)))
      in if allclose0 atol_default H_norm then Some M_old
         else do {
           dir \<leftarrow> ufunc2 (vscal fdiv) H_eff H_norm;
           t \<leftarrow> L_times L_result dir;
           M_new \<leftarrow> ufunc2 (scalv fmul) Ms_old t;
           d \<leftarrow> ufunc2 (vzip fsub) M_new M_old;
           M_lamda \<leftarrow> ufunc2 (vzip fadd) M_old (map_nd (scalv fmul (Fin lamda)) d);
           let M_new_norm = map_nd vnorm M_new;
           let M_lamda_norm = map_nd vnorm M_lamda;
           q \<leftarrow> ufunc2 (vscal fdiv) M_lamda M_lamda_norm;
           ufunc2 (vscal fmul) q M_new_norm
         })"

text \<open>\<open>np.max\<close> over every entry; it raises ValueError on an empty array.\<close>

definition entries :: "vec3 ndarray \<Rightarrow> npfloat list" where
  "entries a = concat (map (\<lambda>c. [c0 (item a c), c1 (item a c), c2 (item a c)]) (cells (shape a)))"

definition amax :: "vec3 ndarray \<Rightarrow> npfloat option" where
  "amax a = (case entries a of [] \<Rightarrow> None | x # xs \<Rightarrow> Some (foldl fmax x xs))"

text \<open>
  One pass through the body of the while loop of \<open>Mean_field_difference\<close>: the new
  object, effective field and energy, and whether the stop criterion holds. The two
  \<open>print\<close> calls are left out.
\<close>

definition loop_body ::
  "real \<Rightarrow> M_class \<Rightarrow> vec3 ndarray \<Rightarrow> (M_class \<times> vec3 ndarray \<times> npfloat \<times> bool) option" where
  "loop_body tol m H_eff = do {
     m_old \<leftarrow> get_m m;
     M_new \<leftarrow> update_M m H_eff lamda_default;
     let m' = set_M m M_new;
     m_new \<leftarrow> get_m m';
     (H_eff', E') \<leftarrow> cal_effective_field m';
     diff \<leftarrow> ufunc2 (vzip fsub) m_new m_old;
     max_value \<leftarrow> amax (map_nd (vmap fabs) diff);
     Some (m', H_eff', E', isclose rtol_default tol max_value (Fin 0))
   }"

function while_loop ::
  "real \<Rightarrow> nat \<Rightarrow> M_class \<Rightarrow> vec3 ndarray \<Rightarrow> npfloat \<Rightarrow> (M_class \<times> npfloat \<times> nat) option" where
  "while_loop tol count m H_eff E =
     (if count < maxiter then
        (case loop_body tol m H_eff of
           None \<Rightarrow> None
         | Some (m', H_eff', E', stop) \<Rightarrow>
             if stop then Some (m', E', count) else while_loop tol (count + 1) m' H_eff' E')
      else Some (m, E, count))"
  by pat_completeness auto
termination
  by (relation "measure (\<lambda>(tol, count, m, H_eff, E). maxiter - count)") auto

definition Mean_field_difference :: "M_class \<Rightarrow> real \<Rightarrow> (M_class \<times> npfloat \<times> nat) option" where
  "Mean_field_difference m tol = do {
     (H_eff, E) \<leftarrow> cal_effective_field m;
     while_loop tol 0 m H_eff E
   }"

subsection \<open>Predicates of the statements\<close>

text \<open>A cell whose three components are finite numbers.\<close>

fun is_fin :: "npfloat \<Rightarrow> bool" where
  "is_fin (Fin a) = True"
| "is_fin x = False"

definition vfinite :: "vec3 \<Rightarrow> bool" where
  "vfinite v = vall is_fin v"

text \<open>
  A cell whose components are zero or of a magnitude between \<open>1e-50\<close> and \<open>1e50\<close>: far
  enough from the limits of a double that the squares and products of \<open>update_M\<close> neither
  overflow nor underflow, which the exact norm of this theory cannot show.
\<close>

definition in_range :: "real \<Rightarrow> bool" where
  "in_range x = (x = 0 \<or> (1 / 10 ^ 50 \<le> \<bar>x\<bar> \<and> \<bar>x\<bar> \<le> 10 ^ 50))"

fun fbounded :: "npfloat \<Rightarrow> bool" where
  "fbounded (Fin a) = in_range a"
| "fbounded x = False"

definition vbounded :: "vec3 \<Rightarrow> bool" where
  "vbounded v = vall fbounded v"

text \<open>A field every cell of which holds the same vector; the cell of three NaN.\<close>

definition field_is :: "vec3 \<Rightarrow> vec3 ndarray \<Rightarrow> bool" where
  "field_is v a = all_cells (\<lambda>x. x = v) a"

definition vnan :: vec3 where
  "vnan = Vec3 NaN NaN NaN"

text \<open>
  The curl as the specification words it: the unit field read through ghost cells that
  are zero outside the grid, central differences along the two axes orthogonal to each
  component.
\<close>

definition ghost0 :: "vec3 ndarray \<Rightarrow> int \<Rightarrow> int \<Rightarrow> int \<Rightarrow> vec3" where
  "ghost0 u i j k =
     (if 0 \<le> i \<and> i < int (n0 (shape u)) \<and> 0 \<le> j \<and> j < int (n1 (shape u)) \<and>
         0 \<le> k \<and> k < int (n2 (shape u))
      then data u (nat i) (nat j) (nat k) else vzero)"

definition cdiff :: "npfloat \<Rightarrow> npfloat \<Rightarrow> real \<Rightarrow> npfloat" where
  "cdiff hi lo h = fdiv (fsub hi lo) (Fin (2 * h))"

definition curl_spec :: "vec3 ndarray \<Rightarrow> nat \<Rightarrow> nat \<Rightarrow> nat \<Rightarrow> vec3" where
  "curl_spec u i j k =
     (let x = int i; y = int j; z = int k in
      Vec3 (fsub (cdiff (c2 (ghost0 u x (y + 1) z)) (c2 (ghost0 u x (y - 1) z)) dy)
                 (cdiff (c1 (ghost0 u x y (z + 1))) (c1 (ghost0 u x y (z - 1))) dz))
           (fsub (cdiff (c0 (ghost0 u x y (z + 1))) (c0 (ghost0 u x y (z - 1))) dz)
                 (cdiff (c2 (ghost0 u (x + 1) y z)) (c2 (ghost0 u (x - 1) y z)) dx))
           (fsub (cdiff (c1 (ghost0 u (x + 1) y z)) (c1 (ghost0 u (x - 1) y z)) dx)
                 (cdiff (c0 (ghost0 u x (y + 1) z)) (c0 (ghost0 u x (y - 1) z)) dy)))"

text \<open>
  One cell of the update of \<open>update_M\<close> at zero temperature, from the old cell and the
  cell of the effective field: the target \<open>Ms_old * 1 * (H_eff / H_norm)\<close>, the damped
  blend \<open>M_old + lamda * (M_new - M_old)\<close>, and the blend renormalised to the magnitude
  of the target.
\<close>

definition target_cell :: "vec3 \<Rightarrow> vec3 \<Rightarrow> vec3" where
  "target_cell m_old h = scalv fmul (vnorm m_old) (scalv fmul (Fin 1) (vscal fdiv h (vnorm h)))"

definition blend_cell :: "real \<Rightarrow> vec3 \<Rightarrow> vec3 \<Rightarrow> vec3" where
  "blend_cell lamda m_old h =
     vzip fadd m_old (scalv fmul (Fin lamda) (vzip fsub (target_cell m_old h) m_old))"

definition update_cell :: "real \<Rightarrow> vec3 \<Rightarrow> vec3 \<Rightarrow> vec3" where
  "update_cell lamda m_old h =
     vscal fmul (vscal fdiv (blend_cell lamda m_old h) (vnorm (blend_cell lamda m_old h)))
                (vnorm (target_cell m_old h))"

text \<open>
  The energy densities of one cell as the specification words them, from the
  magnitude \<open>Ms\<close>, the unit vector and the effective field of the cell:
  \<open>-(mu0/2) * sum(unit * Ms * effectiveField)\<close> and \<open>-mu0 * Ms * sum(unit * H)\<close>.
\<close>

definition density_half :: "npfloat \<Rightarrow> vec3 \<Rightarrow> vec3 \<Rightarrow> npfloat" where
  "density_half ms u e = fmul (Fin (- (mu0 / 2))) (vsum (vzip fmul (vscal fmul u ms) e))"

definition density_zeeman :: "npfloat \<Rightarrow> vec3 \<Rightarrow> vec3 \<Rightarrow> npfloat" where
  "density_zeeman ms u h = fmul (fmul (Fin (- mu0)) ms) (vsum (vzip fmul u h))"

subsection \<open>The passes of the loop\<close>

text \<open>
  The change that the stop criterion measures in one pass: the largest absolute
  difference, over every entry, between the unit field after and before the update.
\<close>

definition max_change :: "M_class \<Rightarrow> vec3 ndarray \<Rightarrow> npfloat option" where
  "max_change m H_eff = do {
     m_old \<leftarrow> get_m m;
     M_new \<leftarrow> update_M m H_eff lamda_default;
     m_new \<leftarrow> get_m (set_M m M_new);
     diff \<leftarrow> ufunc2 (vzip fsub) m_new m_old;
     amax (map_nd (vmap fabs) diff)
   }"

text \<open>
  One pass as the specification words it: compute the updated array, write it into the
  field, recompute the combined effective field and the energy. Then the state of the
  loop (object, effective field, energy) after \<open>n\<close> passes, and whether the stop
  criterion holds in the pass that follows the first \<open>n\<close>.
\<close>

type_synonym loop_state = "M_class \<times> vec3 ndarray \<times> npfloat"

definition update_pass :: "loop_state \<Rightarrow> loop_state option" where
  "update_pass st =
     (case st of (m, H_eff, E) \<Rightarrow> do {
        M_new \<leftarrow> update_M m H_eff lamda_default;
        (H_eff', E') \<leftarrow> cal_effective_field (set_M m M_new);
        Some (set_M m M_new, H_eff', E')
      })"

fun after_passes :: "nat \<Rightarrow> loop_state \<Rightarrow> loop_state option" where
  "after_passes 0 st = Some st"
| "after_passes (Suc n) st =
     (case after_passes n st of None \<Rightarrow> None | Some st' \<Rightarrow> update_pass st')"

definition converged_in_pass :: "real \<Rightarrow> nat \<Rightarrow> loop_state \<Rightarrow> bool" where
  "converged_in_pass tol n st =
     (case after_passes n st of
        None \<Rightarrow> False
      | Some (m, H_eff, E) \<Rightarrow>
          (case max_change m H_eff of
             None \<Rightarrow> False
           | Some x \<Rightarrow> isclose rtol_default tol x (Fin 0)))"

subsection \<open>The program over a store of arrays and objects\<close>

text \<open>
  Where two objects of class \<open>M\<close> hold the same array, what one run does to the array
  is seen by the other. So the program is given a second time over a store. An array
  that a field of an object refers to, or that the source updates in place (\<open>+=\<close>), lives
  at an address of the store; creating it takes the next free address. An array that is
  only read is a value, computed by the functions above. The field \<open>M\<close> of an object is
  an address, so \<open>get_M\<close> and the \<open>M_new = M_old\<close> of \<open>update_M\<close> return the array
  itself, not a copy.
\<close>

record store =
  vec_arrays :: "nat \<Rightarrow> vec3 ndarray"
  num_arrays :: "nat \<Rightarrow> npfloat ndarray"
  next_addr :: nat
  objects :: "nat \<Rightarrow> nat"

definition new_vec :: "vec3 ndarray \<Rightarrow> store \<Rightarrow> nat \<times> store" where
  "new_vec v s =
     (next_addr s, s\<lparr>vec_arrays := (vec_arrays s)(next_addr s := v), next_addr := next_addr s + 1\<rparr>)"

definition new_num :: "npfloat ndarray \<Rightarrow> store \<Rightarrow> nat \<times> store" where
  "new_num v s =
     (next_addr s, s\<lparr>num_arrays := (num_arrays s)(next_addr s := v), next_addr := next_addr s + 1\<rparr>)"

text \<open>The in-place \<open>a += b\<close> on the array at an address.\<close>

definition iadd_vec :: "(vec3 \<Rightarrow> 'b \<Rightarrow> vec3) \<Rightarrow> nat \<Rightarrow> 'b ndarray \<Rightarrow> store \<Rightarrow> store option" where
  "iadd_vec f a x s =
     (case iadd f (vec_arrays s a) x of
        None \<Rightarrow> None
      | Some r \<Rightarrow> Some (s\<lparr>vec_arrays := (vec_arrays s)(a := r)\<rparr>))"

definition iadd_num ::
  "(npfloat \<Rightarrow> 'b \<Rightarrow> npfloat) \<Rightarrow> nat \<Rightarrow> 'b ndarray \<Rightarrow> store \<Rightarrow> store option" where
  "iadd_num f a x s =
     (case iadd f (num_arrays s a) x of
        None \<Rightarrow> None
      | Some r \<Rightarrow> Some (s\<lparr>num_arrays := (num_arrays s)(a := r)\<rparr>))"

text \<open>The object at a reference, with the array its field refers to, for the methods that only read.\<close>

definition object_M :: "store \<Rightarrow> nat \<Rightarrow> M_class" where
  "object_M s ob = \<lparr>M = vec_arrays s (objects s ob)\<rparr>"

definition set_M_st :: "nat \<Rightarrow> nat \<Rightarrow> store \<Rightarrow> store" where
  "set_M_st ob M_new s = s\<lparr>objects := (objects s)(ob := M_new)\<rparr>"

definition laplace_st :: "nat \<Rightarrow> store \<Rightarrow> (nat \<times> store) option" where
  "laplace_st ob s = do {
     u \<leftarrow> get_m (object_M s ob);
     (lap, s) \<leftarrow> Some (new_vec (zeros_like u) s);
     m_pad \<leftarrow> pad_edge u;
     tx \<leftarrow> second_diff m_pad (0, 1, 1) (2, 1, 1) dx;
     s \<leftarrow> iadd_vec (vzip fadd) lap tx s;
     ty \<leftarrow> second_diff m_pad (1, 0, 1) (1, 2, 1) dy;
     s \<leftarrow> iadd_vec (vzip fadd) lap ty s;
     tz \<leftarrow> second_diff m_pad (1, 1, 0) (1, 1, 2) dz;
     s \<leftarrow> iadd_vec (vzip fadd) lap tz s;
     Some (lap, s)
   }"

definition central_diff_st ::
  "vec3 ndarray \<Rightarrow> (vec3 \<Rightarrow> npfloat) \<Rightarrow> nat \<times> nat \<times> nat \<Rightarrow> nat \<times> nat \<times> nat \<Rightarrow> real
     \<Rightarrow> nat \<Rightarrow> store \<Rightarrow> store option" where
  "central_diff_st m_pad sel hi lo h t s = do {
     d \<leftarrow> ufunc2 fsub (map_nd sel (window hi m_pad)) (map_nd sel (window lo m_pad));
     iadd_num fadd t (map_nd (\<lambda>x. fdiv x (Fin (2 * h))) d) s
   }"

definition curl_st :: "nat \<Rightarrow> store \<Rightarrow> (nat \<times> store) option" where
  "curl_st ob s = do {
     u \<leftarrow> get_m (object_M s ob);
     (curl0, s) \<leftarrow> Some (new_vec (zeros_like u) s);
     (dzdy, s) \<leftarrow> Some (new_num (zeros (Nx, Ny, Nz)) s);
     (dydz, s) \<leftarrow> Some (new_num (zeros (Nx, Ny, Nz)) s);
     (dxdz, s) \<leftarrow> Some (new_num (zeros (Nx, Ny, Nz)) s);
     (dzdx, s) \<leftarrow> Some (new_num (zeros (Nx, Ny, Nz)) s);
     (dxdy, s) \<leftarrow> Some (new_num (zeros (Nx, Ny, Nz)) s);
     (dydx, s) \<leftarrow> Some (new_num (zeros (Nx, Ny, Nz)) s);
     let m_pad = pad_constant vzero u;
     s \<leftarrow> central_diff_st m_pad c2 (1, 2, 1) (1, 0, 1) dy dzdy s;
     s \<leftarrow> central_diff_st m_pad c1 (1, 1, 2) (1, 1, 0) dz dydz s;
     s \<leftarrow> central_diff_st m_pad c0 (1, 1, 2) (1, 1, 0) dz dxdz s;
     s \<leftarrow> central_diff_st m_pad c2 (2, 1, 1) (0, 1, 1) dx dzdx s;
     s \<leftarrow> central_diff_st m_pad c0 (1, 2, 1) (1, 0, 1) dy dxdy s;
     s \<leftarrow> central_diff_st m_pad c1 (2, 1, 1) (0, 1, 1) dx dydx s;
     r0 \<leftarrow> ufunc2 fsub (num_arrays s dzdy) (num_arrays s dydz);
     s \<leftarrow> iadd_vec add_c0 curl0 r0 s;
     r1 \<leftarrow> ufunc2 fsub (num_arrays s dxdz) (num_arrays s dzdx);
     s \<leftarrow> iadd_vec add_c1 curl0 r1 s;
     r2 \<leftarrow> ufunc2 fsub (num_arrays s dydx) (num_arrays s dxdy);
     s \<leftarrow> iadd_vec add_c2 curl0 r2 s;
     Some (curl0, s)
   }"

fun effective_field_st :: "EnergyTerm \<Rightarrow> nat \<Rightarrow> store \<Rightarrow> (vec3 ndarray \<times> store) option" where
  "effective_field_st (Exchange a) ob s =
     (if vallclose0 atol_default (get_M (object_M s ob))
      then Some (zeros_like (get_M (object_M s ob)), s)
      else do {
        let coef = map_nd (\<lambda>x. fdiv (Fin (2 * a)) (fmul (Fin mu0) x)) (get_Ms (object_M s ob));
        (lap, s) \<leftarrow> laplace_st ob s;
        e \<leftarrow> ufunc2 (scalv fmul) coef (vec_arrays s lap);
        Some (e, s)
      })"
| "effective_field_st (DMI d) ob s =
     (if vallclose0 atol_default (get_M (object_M s ob))
      then Some (zeros_like (get_M (object_M s ob)), s)
      else do {
        let coef = map_nd (\<lambda>x. fneg (fdiv (Fin (2 * d)) (fmul (Fin mu0) x))) (get_Ms (object_M s ob));
        (c, s) \<leftarrow> curl_st ob s;
        e \<leftarrow> ufunc2 (scalv fmul) coef (vec_arrays s c);
        Some (e, s)
      })"
| "effective_field_st (Zeeman h) ob s = do {
     e \<leftarrow> reshape (tile [c0 h, c1 h, c2 h] (Nx * Ny * Nz)) (Nx, Ny, Nz);
     Some (e, s)
   }"

fun energy_density_st :: "EnergyTerm \<Rightarrow> nat \<Rightarrow> store \<Rightarrow> (npfloat ndarray \<times> store) option" where
  "energy_density_st (Zeeman h) ob s = do {
     u \<leftarrow> get_m (object_M s ob);
     (e, s) \<leftarrow> effective_field_st (Zeeman h) ob s;
     val \<leftarrow> ufunc2 (vzip fmul) u e;
     w \<leftarrow> ufunc2 fmul (map_nd (fmul (Fin (- mu0))) (get_Ms (object_M s ob))) (map_nd vsum val);
     Some (w, s)
   }"
| "energy_density_st t ob s = do {
     u \<leftarrow> get_m (object_M s ob);
     (e, s) \<leftarrow> effective_field_st t ob s;
     value1 \<leftarrow> ufunc2 (vzip fmul) u e;
     value2 \<leftarrow> ufunc2 (scalv fmul) (get_Ms (object_M s ob)) value1;
     Some (map_nd (\<lambda>v. fmul (Fin (- mu0 / 2)) (vsum v)) value2, s)
   }"

definition energy_st :: "EnergyTerm \<Rightarrow> nat \<Rightarrow> store \<Rightarrow> (npfloat \<times> store) option" where
  "energy_st t ob s = do {
     (w, s) \<leftarrow> energy_density_st t ob s;
     let dV = dx * dy * dz;
     Some (sum_nd (map_nd (\<lambda>e. fmul e (Fin dV)) w), s)
   }"

definition cal_effective_field_st ::
  "nat \<Rightarrow> store \<Rightarrow> ((vec3 ndarray \<times> npfloat) \<times> store) option" where
  "cal_effective_field_st ob s = do {
     (Heff_ex_my, s) \<leftarrow> effective_field_st (Exchange A) ob s;
     (Heff_z_my, s) \<leftarrow> effective_field_st (Zeeman H) ob s;
     (Heff_dmi_my, s) \<leftarrow> effective_field_st (DMI D) ob s;
     t \<leftarrow> ufunc2 (vzip fadd) Heff_ex_my Heff_z_my;
     H_eff \<leftarrow> ufunc2 (vzip fadd) t Heff_dmi_my;
     (E_ex, s) \<leftarrow> energy_st (Exchange A) ob s;
     (E_z, s) \<leftarrow> energy_st (Zeeman H) ob s;
     (E_dmi, s) \<leftarrow> energy_st (DMI D) ob s;
     Some ((H_eff, fadd (fadd E_ex E_z) E_dmi), s)
   }"

text \<open>
  \<open>update_M\<close> returns an array: the array of the object itself where the effective field
  is close to zero, a new array otherwise.
\<close>

definition update_M_st :: "nat \<Rightarrow> vec3 ndarray \<Rightarrow> real \<Rightarrow> store \<Rightarrow> (nat \<times> store) option" where
  "update_M_st ob H_eff lamda s =
     (let M_old = objects s ob;
          Ms_old = get_Ms (object_M s ob);
          H_norm = map_nd vnorm H_eff;
          L_result = (if beta = 9 * 10 ^ 99 then L_scalar (Fin 1)
                      else L_array (Langevin (map_nd (fmul (Fin (beta * mu0))) H_norm)))
      in if allclose0 atol_default H_norm then Some (M_old, s)
         else do {
           dir \<leftarrow> ufunc2 (vscal fdiv) H_eff H_norm;
           t \<leftarrow> L_times L_result dir;
           M_new \<leftarrow> ufunc2 (scalv fmul) Ms_old t;
           d \<leftarrow> ufunc2 (vzip fsub) M_new (vec_arrays s M_old);
           M_lamda \<leftarrow> ufunc2 (vzip fadd) (vec_arrays s M_old) (map_nd (scalv fmul (Fin lamda)) d);
           let M_new_norm = map_nd vnorm M_new;
           let M_lamda_norm = map_nd vnorm M_lamda;
           q \<leftarrow> ufunc2 (vscal fdiv) M_lamda M_lamda_norm;
           r \<leftarrow> ufunc2 (vscal fmul) q M_new_norm;
           Some (new_vec r s)
         })"

definition loop_body_st ::
  "real \<Rightarrow> nat \<Rightarrow> vec3 ndarray \<Rightarrow> store \<Rightarrow> ((vec3 ndarray \<times> npfloat \<times> bool) \<times> store) option" where
  "loop_body_st tol ob H_eff s = do {
     m_old \<leftarrow> get_m (object_M s ob);
     (M_new, s) \<leftarrow> update_M_st ob H_eff lamda_default s;
     let s = set_M_st ob M_new s;
     m_new \<leftarrow> get_m (object_M s ob);
     ((H_eff', E'), s) \<leftarrow> cal_effective_field_st ob s;
     diff \<leftarrow> ufunc2 (vzip fsub) m_new m_old;
     max_value \<leftarrow> amax (map_nd (vmap fabs) diff);
     Some ((H_eff', E', isclose rtol_default tol max_value (Fin 0)), s)
   }"

function while_loop_st ::
  "real \<Rightarrow> nat \<Rightarrow> nat \<Rightarrow> vec3 ndarray \<Rightarrow> npfloat \<Rightarrow> store \<Rightarrow> ((npfloat \<times> nat) \<times> store) option" where
  "while_loop_st tol count ob H_eff E s =
     (if count < maxiter then
        (case loop_body_st tol ob H_eff s of
           None \<Rightarrow> None
         | Some ((H_eff', E', stop), s') \<Rightarrow>
             if stop then Some ((E', count), s') else while_loop_st tol (count + 1) ob H_eff' E' s')
      else Some ((E, count), s))"
  by pat_completeness auto
termination
  by (relation "measure (\<lambda>(tol, count, ob, H_eff, E, s). maxiter - count)") auto

text \<open>
  \<open>Mean_field_difference\<close> returns the object it was given, so the result here is the
  energy and the count, and the store in which the object has its last array.
\<close>

definition Mean_field_difference_st ::
  "nat \<Rightarrow> real \<Rightarrow> store \<Rightarrow> ((npfloat \<times> nat) \<times> store) option" where
  "Mean_field_difference_st ob tol s = do {
     ((H_eff, E), s) \<leftarrow> cal_effective_field_st ob s;
     while_loop_st tol 0 ob H_eff E s
   }"

text \<open>
  A store that a computation has only extended: the objects refer to the same arrays, and
  every array that existed holds what it held.
\<close>

definition extends_store :: "store \<Rightarrow> store \<Rightarrow> bool" where
  "extends_store s s' =
     (objects s' = objects s \<and> next_addr s \<le> next_addr s' \<and>
      (\<forall>a<next_addr s. vec_arrays s' a = vec_arrays s a))"

text \<open>
  A store after a run on one object: the other objects refer to the arrays they referred
  to, and every array that existed holds what it held.
\<close>

definition run_extends :: "nat \<Rightarrow> store \<Rightarrow> store \<Rightarrow> bool" where
  "run_extends ob s s' =
     ((\<forall>ob'. ob' \<noteq> ob \<longrightarrow> objects s' ob' = objects s ob') \<and> next_addr s \<le> next_addr s' \<and>
      (\<forall>a<next_addr s. vec_arrays s' a = vec_arrays s a))"

section \<open>Properties\<close>

subsection \<open>Arrays and cells\<close>

lemma set_cells: "set (cells s) = {(i, j, k). i < n0 s \<and> j < n1 s \<and> k < n2 s}"
  by (cases s) (force simp: cells_def)

lemma all_cells_iff:
  "all_cells P a \<longleftrightarrow> (\<forall>i<n0 (shape a). \<forall>j<n1 (shape a). \<forall>k<n2 (shape a). P (data a i j k))"
  by (auto simp: all_cells_def list_all_iff set_cells item_def)

lemma bc1_same [simp]: "bc1 n n = Some n"
  by (simp add: bc1_def)

lemma broadcast_shapes_same [simp]: "broadcast_shapes s s = Some s"
  by (cases s) (simp add: broadcast_shapes_def)

lemma bidx_same [simp]: "bidx n n i = i"
  by (simp add: bidx_def)

lemma broadcast_to_same [simp]: "broadcast_to a (shape a) = a"
  by (cases a) (simp add: broadcast_to_def)

lemma ufunc2_same:
  "shape a = shape b \<Longrightarrow> ufunc2 f a b = Some (NDArray (shape a) (\<lambda>i j k. f (data a i j k) (data b i j k)))"
  by (simp add: ufunc2_def) (metis broadcast_to_same)

lemma iadd_same:
  "shape a = shape b \<Longrightarrow> iadd f a b = Some (NDArray (shape a) (\<lambda>i j k. f (data a i j k) (data b i j k)))"
  by (simp add: iadd_def ufunc2_same)

lemma shape_map_nd [simp]: "shape (map_nd f a) = shape a"
  by (simp add: map_nd_def)

lemma data_map_nd [simp]: "data (map_nd f a) i j k = f (data a i j k)"
  by (simp add: map_nd_def)

lemma shape_full [simp]: "shape (full s v) = s"
  by (simp add: full_def)

lemma data_full [simp]: "data (full s v) i j k = v"
  by (simp add: full_def)

lemma shape_zeros_like [simp]: "shape (zeros_like a) = shape a"
  by (simp add: zeros_like_def)

lemma data_zeros_like [simp]: "data (zeros_like a) i j k = vzero"
  by (simp add: zeros_like_def)

lemma shape_window [simp]:
  "shape (window off a) = (n0 (shape a) - 2, n1 (shape a) - 2, n2 (shape a) - 2)"
  by (cases off) (simp add: window_def)

lemma data_window [simp]:
  "data (window (oi, oj, ok) a) i j k = data a (i + oi) (j + oj) (k + ok)"
  by (simp add: window_def)

lemma get_m_explicit:
  "get_m m = Some (NDArray (shape (M m))
      (\<lambda>i j k. if vallclose0 atol_default (M m) then vzero
               else vscal fdiv (data (M m) i j k) (vnorm (data (M m) i j k))))"
  by (auto simp: get_m_def get_M_def get_Ms_def ufunc2_same zeros_like_def full_def)

lemma vnorm_vzero [simp]: "vnorm vzero = Fin 0"
  by (simp add: vnorm_def vzero_def vsum_def vzip_def)

lemma isclose_zero [simp]: "isclose rtol_default atol_default (Fin 0) (Fin 0)"
  by (simp add: rtol_default_def atol_default_def)

subsection \<open>The update leaves the field alone at a zero effective field\<close>

text \<open>
  C7. In \<open>update_M\<close>, when the per-cell norm of the effective field is close to zero in
  every cell (\<open>np.allclose(H_norm, 0)\<close>), the array returned is the old magnetization
  array itself, whatever the field, the damping constant and the temperature.
\<close>

theorem update_M_zero_field_unchanged:
  "allclose0 atol_default (map_nd vnorm H_eff) \<Longrightarrow> update_M m H_eff lamda = Some (get_M m)"
  by (simp add: update_M_def Let_def)

theorem update_M_zero_field_unchanged_witness:
  "allclose0 atol_default (map_nd vnorm (full (Nx, Ny, Nz) vzero)) \<and>
   update_M \<lparr>M = full (Nx, Ny, Nz) (Vec3 (Fin 0) (Fin 0) (Fin 1))\<rparr> (full (Nx, Ny, Nz) vzero) lamda_default
     = Some (full (Nx, Ny, Nz) (Vec3 (Fin 0) (Fin 0) (Fin 1)))"
proof -
  have h: "allclose0 atol_default (map_nd vnorm (full (Nx, Ny, Nz) vzero))"
    by (simp add: allclose0_def all_cells_iff atol_default_def)
  show ?thesis
    using h update_M_zero_field_unchanged [OF h, of "\<lparr>M = full (Nx, Ny, Nz) (Vec3 (Fin 0) (Fin 0) (Fin 1))\<rparr>" lamda_default]
    by (simp add: get_M_def)
qed

subsection \<open>The Zeeman field\<close>

lemma length_tile [simp]: "length (tile xs n) = n * length xs"
  by (induction n) (simp_all add: tile_def)

lemma nth_tile: "r < length xs \<Longrightarrow> q < n \<Longrightarrow> tile xs n ! (q * length xs + r) = xs ! r"
proof (induction n arbitrary: q)
  case 0
  then show ?case by simp
next
  case (Suc n)
  have unfold: "tile xs (Suc n) = xs @ tile xs n"
    by (simp add: tile_def)
  show ?case
  proof (cases q)
    case 0
    with Suc.prems show ?thesis by (simp add: unfold nth_append)
  next
    case (Suc q')
    with Suc.prems have "q' < n" by simp
    from Suc.IH [OF Suc.prems(1) this]
    have "tile xs n ! (q' * length xs + r) = xs ! r" .
    moreover have "q * length xs + r = length xs + (q' * length xs + r)"
      using Suc by simp
    ultimately show ?thesis
      by (simp only: unfold nth_append_length_plus)
  qed
qed

lemma row_major_bound: "i < a \<Longrightarrow> j < b \<Longrightarrow> i * b + j < a * (b::nat)"
proof -
  assume "i < a" "j < b"
  then have "i * b + j < (i + 1) * b" by simp
  also have "\<dots> \<le> a * b" using \<open>i < a\<close> by (intro mult_le_mono1) simp
  finally show ?thesis .
qed

lemma cell_index_bound:
  "i < a \<Longrightarrow> j < b \<Longrightarrow> k < c \<Longrightarrow> (i * b + j) * c + k < a * b * (c::nat)"
  using row_major_bound [OF row_major_bound, of i a j b k c] by simp

lemma Zeeman_field_explicit:
  "effective_field (Zeeman h) m =
     Some (NDArray (Nx, Ny, Nz)
       (\<lambda>i j k. Vec3 (tile [c0 h, c1 h, c2 h] (Nx * Ny * Nz) ! flat_index (Nx, Ny, Nz) i j k 0)
                      (tile [c0 h, c1 h, c2 h] (Nx * Ny * Nz) ! flat_index (Nx, Ny, Nz) i j k 1)
                      (tile [c0 h, c1 h, c2 h] (Nx * Ny * Nz) ! flat_index (Nx, Ny, Nz) i j k 2)))"
  by (simp add: reshape_def)

lemma nth_tile3:
  "q < n \<Longrightarrow> r < 3 \<Longrightarrow> tile [a, b, c] n ! (q * 3 + r) = [a, b, c] ! r"
proof -
  assume a: "q < n" "r < 3"
  have len: "length [a, b, c] = 3" by simp
  from a have "r < length [a, b, c]" by simp
  from nth_tile [OF this a(1)] show ?thesis
    unfolding len .
qed

lemma Zeeman_field_cell:
  assumes "i < Nx" "j < Ny" "k < Nz"
  shows "Vec3 (tile [c0 h, c1 h, c2 h] (Nx * Ny * Nz) ! flat_index (Nx, Ny, Nz) i j k 0)
              (tile [c0 h, c1 h, c2 h] (Nx * Ny * Nz) ! flat_index (Nx, Ny, Nz) i j k 1)
              (tile [c0 h, c1 h, c2 h] (Nx * Ny * Nz) ! flat_index (Nx, Ny, Nz) i j k 2) = h"
proof -
  define q where "q = (i * Ny + j) * Nz + k"
  have q: "q < Nx * Ny * Nz"
    unfolding q_def using assms by (rule cell_index_bound)
  have idx: "flat_index (Nx, Ny, Nz) i j k r = q * 3 + r" for r
    by (simp add: flat_index_def q_def)
  show ?thesis
    unfolding idx
    using nth_tile3 [OF q, of 0 "c0 h" "c1 h" "c2 h"] nth_tile3 [OF q, of 1 "c0 h" "c1 h" "c2 h"]
      nth_tile3 [OF q, of 2 "c0 h" "c1 h" "c2 h"]
    by (cases h) simp
qed

text \<open>
  C6. \<open>Zeeman.effective_field\<close> does not look at its argument: for any two fields it
  returns the same array, of the global shape, whose every cell is the external field
  vector \<open>H\<close> (\<open>np.tile\<close> followed by the row-major \<open>reshape\<close>).
\<close>

theorem Zeeman_effective_field_independent:
  "effective_field (Zeeman h) m1 = effective_field (Zeeman h) m2 \<and>
   (\<exists>e. effective_field (Zeeman h) m1 = Some e \<and> shape e = (Nx, Ny, Nz) \<and>
        (\<forall>i<Nx. \<forall>j<Ny. \<forall>k<Nz. data e i j k = h))"
  unfolding Zeeman_field_explicit by (simp add: Zeeman_field_cell del: One_nat_def)

theorem Zeeman_effective_field_independent_witness:
  "effective_field (Zeeman H) \<lparr>M = full (Nx, Ny, Nz) (Vec3 (Fin 0) (Fin 0) (Fin 1))\<rparr>
     = effective_field (Zeeman H) \<lparr>M = full (Nx, Ny, Nz) (Vec3 (Fin 7) (Fin 0) (Fin 0))\<rparr> \<and>
   data (the (effective_field (Zeeman H) \<lparr>M = full (Nx, Ny, Nz) (Vec3 (Fin 0) (Fin 0) (Fin 1))\<rparr>)) 59 59 11 = H"
proof -
  have "(59::nat) < Nx" "(59::nat) < Ny" "(11::nat) < Nz"
    by (simp_all add: Nx_def Ny_def Nz_def)
  with Zeeman_effective_field_independent
         [of H "\<lparr>M = full (Nx, Ny, Nz) (Vec3 (Fin 0) (Fin 0) (Fin 1))\<rparr>"
               "\<lparr>M = full (Nx, Ny, Nz) (Vec3 (Fin 7) (Fin 0) (Fin 0))\<rparr>"]
  show ?thesis by auto
qed

subsection \<open>The Laplacian\<close>

lemma pad_edge_explicit:
  "shape a = (nx, ny, nz) \<Longrightarrow> 0 < nx \<Longrightarrow> 0 < ny \<Longrightarrow> 0 < nz \<Longrightarrow>
   pad_edge a = Some (NDArray (nx + 2, ny + 2, nz + 2)
                     (\<lambda>i j k. data a (clamp nx i) (clamp ny j) (clamp nz k)))"
  by (simp add: pad_edge_def)

lemma second_diff_explicit:
  "shape p = (nx + 2, ny + 2, nz + 2) \<Longrightarrow>
   second_diff p (li, lj, lk) (hi, hj, hk) h =
     Some (NDArray (nx, ny, nz)
       (\<lambda>i j k. vscal fdiv
          (vzip fsub (vzip fadd (data p (i + li) (j + lj) (k + lk)) (data p (i + hi) (j + hj) (k + hk)))
                     (scalv fmul (Fin 2) (data p (i + 1) (j + 1) (k + 1))))
          (Fin (h ^ 2))))"
  by (simp add: second_diff_def ufunc2_same map_nd_def)

lemma laplace_explicit:
  assumes "shape (M m) = (nx, ny, nz)" "0 < nx" "0 < ny" "0 < nz"
    and "get_m m = Some u"
  shows "laplace m = Some (NDArray (nx, ny, nz) (\<lambda>i j k.
     vzip fadd (vzip fadd (vzip fadd vzero
       (vscal fdiv (vzip fsub (vzip fadd (data u (clamp nx i) (clamp ny (j + 1)) (clamp nz (k + 1)))
                                         (data u (clamp nx (i + 2)) (clamp ny (j + 1)) (clamp nz (k + 1))))
                     (scalv fmul (Fin 2) (data u (clamp nx (i + 1)) (clamp ny (j + 1)) (clamp nz (k + 1)))))
          (Fin (dx ^ 2))))
       (vscal fdiv (vzip fsub (vzip fadd (data u (clamp nx (i + 1)) (clamp ny j) (clamp nz (k + 1)))
                                         (data u (clamp nx (i + 1)) (clamp ny (j + 2)) (clamp nz (k + 1))))
                     (scalv fmul (Fin 2) (data u (clamp nx (i + 1)) (clamp ny (j + 1)) (clamp nz (k + 1)))))
          (Fin (dy ^ 2))))
       (vscal fdiv (vzip fsub (vzip fadd (data u (clamp nx (i + 1)) (clamp ny (j + 1)) (clamp nz k))
                                         (data u (clamp nx (i + 1)) (clamp ny (j + 1)) (clamp nz (k + 2))))
                     (scalv fmul (Fin 2) (data u (clamp nx (i + 1)) (clamp ny (j + 1)) (clamp nz (k + 1)))))
          (Fin (dz ^ 2)))))"
proof -
  have su: "shape u = (nx, ny, nz)"
    using assms(1,5) by (simp add: get_m_explicit) auto
  show ?thesis
    using assms(2-4)
    by (simp add: laplace_def assms(5) pad_edge_explicit [OF su] second_diff_explicit iadd_same su)
qed

lemma clamp_less: "0 < n \<Longrightarrow> clamp n i < n"
  by (auto simp: clamp_def min_def)

lemma is_fin_iff: "is_fin x \<longleftrightarrow> (\<exists>a. x = Fin a)"
  by (cases x) simp_all

lemma vfinite_iff: "vfinite v \<longleftrightarrow> (\<exists>a b c. v = Vec3 (Fin a) (Fin b) (Fin c))"
  by (cases v) (auto simp: vfinite_def vall_def is_fin_iff)

lemma second_diff_uniform:
  "vfinite w \<Longrightarrow> h \<noteq> 0 \<Longrightarrow>
   vscal fdiv (vzip fsub (vzip fadd w w) (scalv fmul (Fin 2) w)) (Fin (h ^ 2)) = vzero"
  by (auto simp: vfinite_iff vscal_def vzip_def scalv_def vmap_def vzero_def fsub_def)

lemma vzero_add [simp]: "vzip fadd vzero vzero = vzero"
  by (simp add: vzip_def vzero_def)

lemma unit_cell_finite:
  assumes "\<not> vall (\<lambda>x. isclose rtol_default atol_default x (Fin 0)) (Vec3 (Fin a) (Fin b) (Fin c))"
  shows "vfinite (vscal fdiv (Vec3 (Fin a) (Fin b) (Fin c)) (vnorm (Vec3 (Fin a) (Fin b) (Fin c))))"
proof -
  have "a \<noteq> 0 \<or> b \<noteq> 0 \<or> c \<noteq> 0"
    using assms by (auto simp: vall_def atol_default_def)
  then have "a * a + b * b + c * c \<noteq> 0"
    by (metis add_nonneg_eq_0_iff mult_eq_0_iff zero_le_square add_nonneg_nonneg)
  moreover have "0 \<le> a * a + b * b + c * c"
    by (simp add: add_nonneg_nonneg)
  ultimately show ?thesis
    by (simp add: vfinite_iff vscal_def vmap_def vnorm_def vsum_def vzip_def not_less)
qed

text \<open>
  C3. For a uniform field (every cell of the grid holds the same finite vector) on a grid
  with no empty axis, \<open>laplace\<close> returns an array of the shape of the field whose every
  cell is exactly zero: the edge padding repeats the constant at the ghost cells, so each
  of the three second differences vanishes.
\<close>

theorem laplace_uniform_zero:
  assumes "shape (M m) = (nx, ny, nz)" "0 < nx" "0 < ny" "0 < nz"
    and "\<forall>i<nx. \<forall>j<ny. \<forall>k<nz. data (M m) i j k = Vec3 (Fin a) (Fin b) (Fin c)"
  shows "\<exists>L. laplace m = Some L \<and> shape L = (nx, ny, nz) \<and>
             (\<forall>i<nx. \<forall>j<ny. \<forall>k<nz. data L i j k = vzero)"
proof -
  let ?v = "Vec3 (Fin a) (Fin b) (Fin c)"
  obtain u where u: "get_m m = Some u"
    and ud: "\<And>i j k. data u i j k =
                (if vallclose0 atol_default (M m) then vzero
                 else vscal fdiv (data (M m) i j k) (vnorm (data (M m) i j k)))"
    by (simp add: get_m_explicit)
  have close: "vallclose0 atol_default (M m) \<longleftrightarrow>
                 vall (\<lambda>x. isclose rtol_default atol_default x (Fin 0)) ?v"
    using assms by (auto simp: vallclose0_def all_cells_iff)
  define w where "w = (if vallclose0 atol_default (M m) then vzero else vscal fdiv ?v (vnorm ?v))"
  have wfin: "vfinite w"
  proof (cases "vallclose0 atol_default (M m)")
    case True
    then show ?thesis by (simp add: w_def vfinite_iff vzero_def)
  next
    case False
    with close unit_cell_finite show ?thesis by (simp add: w_def)
  qed
  have uw: "data u i j k = w" if "i < nx" "j < ny" "k < nz" for i j k
    using that assms(5) by (simp add: ud w_def)
  have cw: "data u (clamp nx i) (clamp ny j) (clamp nz k) = w" for i j k
    by (intro uw clamp_less assms)
  have steps: "dx \<noteq> 0" "dy \<noteq> 0" "dz \<noteq> 0"
    by (simp_all add: dx_def dy_def dz_def)
  show ?thesis
    unfolding laplace_explicit [OF assms(1-4) u]
    by (simp add: cw second_diff_uniform [OF wfin] steps)
qed

theorem laplace_uniform_zero_witness:
  "shape (M \<lparr>M = full (Nx, Ny, Nz) (Vec3 (Fin 0) (Fin 0) (Fin (- 384000)))\<rparr>) = (60, 60, 12) \<and>
   (\<exists>L. laplace \<lparr>M = full (Nx, Ny, Nz) (Vec3 (Fin 0) (Fin 0) (Fin (- 384000)))\<rparr> = Some L \<and>
        shape L = (60, 60, 12) \<and> data L 0 0 0 = vzero \<and> data L 59 59 11 = vzero)"
proof -
  let ?m = "\<lparr>M = full (Nx, Ny, Nz) (Vec3 (Fin 0) (Fin 0) (Fin (- 384000)))\<rparr>"
  have s: "shape (M ?m) = (60, 60, 12)"
    by (simp add: Nx_def Ny_def Nz_def)
  have u: "\<forall>i<60. \<forall>j<60. \<forall>k<12. data (M ?m) i j k = Vec3 (Fin 0) (Fin 0) (Fin (- 384000))"
    by simp
  from laplace_uniform_zero [OF s _ _ _ u] s show ?thesis
    by auto
qed

subsection \<open>The curl\<close>

lemma fadd_zero_left [simp]: "fadd (Fin 0) x = x"
  by (cases x) simp_all

lemma shape_pad_constant [simp]:
  "shape (pad_constant v a) = (n0 (shape a) + 2, n1 (shape a) + 2, n2 (shape a) + 2)"
  by (cases "shape a") (simp add: pad_constant_def)

lemma data_pad_constant:
  "data (pad_constant v a) i j k =
     (if inside (n0 (shape a)) i \<and> inside (n1 (shape a)) j \<and> inside (n2 (shape a)) k
      then data a (i - 1) (j - 1) (k - 1) else v)"
  by (cases "shape a") (simp add: pad_constant_def)

lemma shape_zeros [simp]: "shape (zeros s) = s"
  by (simp add: zeros_def)

lemma data_zeros [simp]: "data (zeros s) i j k = Fin 0"
  by (simp add: zeros_def)

lemma vzero_sel [simp]: "c0 vzero = Fin 0" "c1 vzero = Fin 0" "c2 vzero = Fin 0"
  by (simp_all add: vzero_def)

lemma central_diff_global:
  "shape p = (Nx + 2, Ny + 2, Nz + 2) \<Longrightarrow>
   central_diff p sel (hi, hj, hk) (li, lj, lk) h =
     Some (NDArray (Nx, Ny, Nz)
       (\<lambda>i j k. fdiv (fsub (sel (data p (i + hi) (j + hj) (k + hk)))
                            (sel (data p (i + li) (j + lj) (k + lk)))) (Fin (2 * h))))"
  by (simp add: central_diff_def ufunc2_same iadd_same)

lemma curl_global:
  assumes "shape (M m) = (Nx, Ny, Nz)" and "get_m m = Some u"
  shows "curl m = Some (NDArray (Nx, Ny, Nz) (\<lambda>i j k.
     (let p = data (pad_constant vzero u) in
      Vec3 (fsub (fdiv (fsub (c2 (p (i + 1) (j + 2) (k + 1))) (c2 (p (i + 1) j (k + 1)))) (Fin (2 * dy)))
                 (fdiv (fsub (c1 (p (i + 1) (j + 1) (k + 2))) (c1 (p (i + 1) (j + 1) k))) (Fin (2 * dz))))
           (fsub (fdiv (fsub (c0 (p (i + 1) (j + 1) (k + 2))) (c0 (p (i + 1) (j + 1) k))) (Fin (2 * dz)))
                 (fdiv (fsub (c2 (p (i + 2) (j + 1) (k + 1))) (c2 (p i (j + 1) (k + 1)))) (Fin (2 * dx))))
           (fsub (fdiv (fsub (c1 (p (i + 2) (j + 1) (k + 1))) (c1 (p i (j + 1) (k + 1)))) (Fin (2 * dx)))
                 (fdiv (fsub (c0 (p (i + 1) (j + 2) (k + 1))) (c0 (p (i + 1) j (k + 1)))) (Fin (2 * dy)))))))"
proof -
  have su: "shape u = (Nx, Ny, Nz)"
    using assms by (simp add: get_m_explicit) auto
  have sp: "shape (pad_constant vzero u) = (Nx + 2, Ny + 2, Nz + 2)"
    by (simp add: su)
  show ?thesis
    by (simp add: curl_def assms(2) central_diff_global [OF sp] ufunc2_same iadd_same su
        add_c0_def add_c1_def add_c2_def Let_def)
qed

lemma pad_constant_ghost0:
  "data (pad_constant vzero u) i j k = ghost0 u (int i - 1) (int j - 1) (int k - 1)"
proof -
  have idx: "nat (int n - 1) = n - 1" for n
    by simp
  have ins: "inside b n \<longleftrightarrow> 0 \<le> int n - 1 \<and> int n - 1 < int b" for b n
    by (auto simp: inside_def)
  show ?thesis
    unfolding data_pad_constant ghost0_def ins idx by simp
qed

text \<open>
  C4. On a field of the global shape \<open>curl\<close> returns an array of that shape whose cell
  \<open>(i, j, k)\<close> is the standard curl of the unit field by central differences: component
  0 is \<open>d m_z / dy - d m_y / dz\<close>, component 1 is \<open>d m_x / dz - d m_z / dx\<close>, component 2 is
  \<open>d m_y / dx - d m_x / dy\<close>, each difference \<open>(f (n + 1) - f (n - 1)) / (2 h)\<close> reading the
  value zero (not the edge value) at a ghost cell outside the grid.
\<close>

theorem curl_is_dirichlet_central_difference:
  assumes "shape (M m) = (Nx, Ny, Nz)"
  shows "\<exists>u c. get_m m = Some u \<and> curl m = Some c \<and> shape c = (Nx, Ny, Nz) \<and>
               (\<forall>i<Nx. \<forall>j<Ny. \<forall>k<Nz. data c i j k = curl_spec u i j k)"
proof -
  obtain u where u: "get_m m = Some u"
    by (simp add: get_m_explicit)
  have eq: "int (n + 1) - 1 = int n" "int (n + 2) - 1 = int n + 1" for n
    by simp_all
  show ?thesis
    unfolding curl_global [OF assms u] u
    by (simp add: pad_constant_ghost0 curl_spec_def cdiff_def Let_def eq add.commute del: One_nat_def)
qed

lemma unit_z_not_close:
  "\<not> vallclose0 atol_default (full (Nx, Ny, Nz) (Vec3 (Fin 0) (Fin 0) (Fin 1)))"
proof -
  have "(0::nat) < Nx" "(0::nat) < Ny" "(0::nat) < Nz"
    by (simp_all add: Nx_def Ny_def Nz_def)
  then show ?thesis
    by (auto simp: vallclose0_def all_cells_iff vall_def atol_default_def rtol_default_def)
qed

theorem curl_is_dirichlet_central_difference_witness:
  "shape (M \<lparr>M = full (Nx, Ny, Nz) (Vec3 (Fin 0) (Fin 0) (Fin 1))\<rparr>) = (Nx, Ny, Nz) \<and>
   (\<exists>c. curl \<lparr>M = full (Nx, Ny, Nz) (Vec3 (Fin 0) (Fin 0) (Fin 1))\<rparr> = Some c \<and>
        data c 0 0 0 = Vec3 (Fin (1 / (2 * dy))) (Fin (- (1 / (2 * dx)))) (Fin 0) \<and>
        data c 1 1 1 = vzero)"
proof -
  let ?m = "\<lparr>M = full (Nx, Ny, Nz) (Vec3 (Fin 0) (Fin 0) (Fin 1))\<rparr>"
  have s: "shape (M ?m) = (Nx, Ny, Nz)"
    by simp
  from curl_is_dirichlet_central_difference [OF s]
  obtain u c where u: "get_m ?m = Some u" and c: "curl ?m = Some c"
    and cells: "\<forall>i<Nx. \<forall>j<Ny. \<forall>k<Nz. data c i j k = curl_spec u i j k"
    by blast
  have ue: "u = NDArray (Nx, Ny, Nz) (\<lambda>i j k. Vec3 (Fin 0) (Fin 0) (Fin 1))"
    using u unit_z_not_close
    by (simp add: get_m_explicit vscal_def vmap_def vnorm_def vsum_def vzip_def)
  have in0: "(0::nat) < Nx" "(0::nat) < Ny" "(0::nat) < Nz"
    and in1: "(1::nat) < Nx" "(1::nat) < Ny" "(1::nat) < Nz"
    by (simp_all add: Nx_def Ny_def Nz_def)
  have "data c 0 0 0 = curl_spec u 0 0 0" "data c 1 1 1 = curl_spec u 1 1 1"
    using cells in0 in1 by blast+
  moreover have "curl_spec u 0 0 0 = Vec3 (Fin (1 / (2 * dy))) (Fin (- (1 / (2 * dx)))) (Fin 0)"
    by (simp add: ue curl_spec_def ghost0_def cdiff_def fsub_def vzero_def Nx_def Ny_def Nz_def
        dx_def dy_def dz_def)
  moreover have "curl_spec u 1 1 1 = vzero"
    by (simp add: ue curl_spec_def ghost0_def cdiff_def fsub_def vzero_def Nx_def Ny_def Nz_def
        dx_def dy_def dz_def)
  ultimately show ?thesis
    using s c by simp
qed

subsection \<open>Shapes\<close>

lemma bc1_antisym: "bc1 a b = Some a \<Longrightarrow> bc1 b a = Some b \<Longrightarrow> a = b"
  by (auto simp: bc1_def split: if_splits)

lemma broadcast_shapes_antisym:
  assumes "broadcast_shapes s t = Some s" "broadcast_shapes t s = Some t"
  shows "s = t"
proof -
  obtain a b c where s: "s = (a, b, c)" by (cases s)
  obtain a' b' c' where t: "t = (a', b', c')" by (cases t)
  from assms have "bc1 a a' = Some a" "bc1 b b' = Some b" "bc1 c c' = Some c"
    "bc1 a' a = Some a'" "bc1 b' b = Some b'" "bc1 c' c = Some c'"
    by (auto simp: broadcast_shapes_def s t split: option.splits)
  then show ?thesis
    by (simp add: s t bc1_antisym)
qed

lemma shape_ufunc2: "ufunc2 f a b = Some r \<Longrightarrow> broadcast_shapes (shape a) (shape b) = Some (shape r)"
  by (auto simp: ufunc2_def split: option.splits)

lemma shape_iadd: "iadd f a b = Some r \<Longrightarrow> shape r = shape a \<and> broadcast_shapes (shape a) (shape b) = Some (shape a)"
  by (auto simp: iadd_def dest: shape_ufunc2 split: if_splits)

lemma shape_get_m: "get_m m = Some u \<Longrightarrow> shape u = shape (M m)"
  by (auto simp: get_m_explicit)

lemma central_diff_shape:
  assumes "central_diff p sel hi lo h = Some r"
  shows "shape r = (Nx, Ny, Nz) \<and>
         broadcast_shapes (Nx, Ny, Nz) (n0 (shape p) - 2, n1 (shape p) - 2, n2 (shape p) - 2)
           = Some (Nx, Ny, Nz)"
proof -
  from assms obtain d where d: "ufunc2 fsub (map_nd sel (window hi p)) (map_nd sel (window lo p)) = Some d"
    and r: "iadd fadd (zeros (Nx, Ny, Nz)) (map_nd (\<lambda>x. fdiv x (Fin (2 * h))) d) = Some r"
    by (auto simp: central_diff_def bind_eq_Some_conv)
  from shape_ufunc2 [OF d] have "shape d = (n0 (shape p) - 2, n1 (shape p) - 2, n2 (shape p) - 2)"
    by simp
  with shape_iadd [OF r] show ?thesis by simp
qed

lemma curl_Some_global:
  assumes "curl m = Some c"
  shows "shape (M m) = (Nx, Ny, Nz)"
proof -
  from assms obtain u dzdy dydz r0 curl1 where u: "get_m m = Some u"
    and d1: "central_diff (pad_constant vzero u) c2 (1, 2, 1) (1, 0, 1) dy = Some dzdy"
    and d2: "central_diff (pad_constant vzero u) c1 (1, 1, 2) (1, 1, 0) dz = Some dydz"
    and r0: "ufunc2 fsub dzdy dydz = Some r0"
    and c1: "iadd add_c0 (zeros_like u) r0 = Some curl1"
    by (auto simp: curl_def bind_eq_Some_conv Let_def)
  have su: "shape u = shape (M m)"
    using u by (rule shape_get_m)
  from central_diff_shape [OF d1]
  have b1: "broadcast_shapes (Nx, Ny, Nz) (shape u) = Some (Nx, Ny, Nz)" and s1: "shape dzdy = (Nx, Ny, Nz)"
    by (cases "shape u"; simp)+
  from central_diff_shape [OF d2] have s2: "shape dydz = (Nx, Ny, Nz)"
    by simp
  from shape_ufunc2 [OF r0] have "shape r0 = (Nx, Ny, Nz)"
    by (simp add: s1 s2)
  with shape_iadd [OF c1] have "broadcast_shapes (shape u) (Nx, Ny, Nz) = Some (shape u)"
    by simp
  from broadcast_shapes_antisym [OF this b1] su show ?thesis
    by simp
qed

lemma curl_global_Some:
  assumes "shape (M m) = (Nx, Ny, Nz)"
  shows "\<exists>c. curl m = Some c \<and> shape c = (Nx, Ny, Nz)"
proof -
  obtain u where u: "get_m m = Some u"
    by (simp add: get_m_explicit)
  show ?thesis
    unfolding curl_global [OF assms u] by simp
qed

lemma laplace_shape:
  assumes "shape (M m) = (nx, ny, nz)" "0 < nx" "0 < ny" "0 < nz"
  shows "\<exists>L. laplace m = Some L \<and> shape L = (nx, ny, nz)"
proof -
  obtain u where u: "get_m m = Some u"
    by (simp add: get_m_explicit)
  show ?thesis
    unfolding laplace_explicit [OF assms u] by simp
qed

lemma beta_inf [simp]: "beta = 9 * 10 ^ 99"
  by (simp add: beta_def)

lemma update_M_explicit:
  assumes "shape h_eff = shape (M m)"
  shows "update_M m h_eff lam =
           Some (if allclose0 atol_default (map_nd vnorm h_eff) then M m
                 else NDArray (shape (M m)) (\<lambda>i j k. update_cell lam (data (M m) i j k) (data h_eff i j k)))"
  using assms
  by (simp add: update_M_def Let_def get_M_def get_Ms_def ufunc2_same update_cell_def
      blend_cell_def target_cell_def)

lemma global_dims: "(Nx, Ny, Nz) = (60, 60, 12)"
  by (simp add: Nx_def Ny_def Nz_def)

lemma effective_field_shape:
  assumes "shape (M m) = (Nx, Ny, Nz)"
  shows "\<exists>e. effective_field t m = Some e \<and> shape e = (Nx, Ny, Nz)"
proof (cases t)
  case (Exchange a)
  have pos: "0 < Nx" "0 < Ny" "0 < Nz"
    by (simp_all add: Nx_def Ny_def Nz_def)
  from laplace_shape [OF assms pos] obtain L where "laplace m = Some L" "shape L = (Nx, Ny, Nz)"
    by blast
  then show ?thesis
    using assms by (simp add: Exchange get_M_def get_Ms_def ufunc2_same)
next
  case (DMI d)
  from curl_global_Some [OF assms] obtain c where "curl m = Some c" "shape c = (Nx, Ny, Nz)"
    by blast
  then show ?thesis
    using assms by (simp add: DMI get_M_def get_Ms_def ufunc2_same)
next
  case (Zeeman h)
  show ?thesis
    unfolding Zeeman Zeeman_field_explicit by simp
qed

text \<open>
  C10. The grid shape is the module constant \<open>(Nx, Ny, Nz) = (60, 60, 12)\<close>, not the
  shape of the argument: \<open>Zeeman.effective_field\<close> returns an array of the global shape for
  every field (so its shape is that of the field only for a field of the global shape),
  and \<open>curl\<close>, whose temporaries have the global shape, returns an array exactly for the
  fields of the global shape and raises otherwise. For a field of the global shape the
  unit field, the Laplacian, the curl, the three effective fields and the update by an
  effective field of that shape all have the shape of the field.
\<close>

theorem global_shape_contract:
  "(Nx, Ny, Nz) = (60, 60, 12) \<and>
   (\<exists>e. effective_field (Zeeman h) m = Some e \<and> shape e = (60, 60, 12) \<and>
        (shape e = shape (M m) \<longleftrightarrow> shape (M m) = (60, 60, 12))) \<and>
   (curl m \<noteq> None \<longleftrightarrow> shape (M m) = (60, 60, 12)) \<and>
   (shape (M m) = (60, 60, 12) \<longrightarrow>
      (\<exists>u. get_m m = Some u \<and> shape u = shape (M m)) \<and>
      (\<exists>L. laplace m = Some L \<and> shape L = shape (M m)) \<and>
      (\<exists>c. curl m = Some c \<and> shape c = shape (M m)) \<and>
      (\<forall>t. \<exists>e. effective_field t m = Some e \<and> shape e = shape (M m)) \<and>
      (\<forall>h_eff lam. shape h_eff = shape (M m) \<longrightarrow>
         (\<exists>r. update_M m h_eff lam = Some r \<and> shape r = shape (M m))))"
proof -
  have z: "\<exists>e. effective_field (Zeeman h) m = Some e \<and> shape e = (60, 60, 12) \<and>
        (shape e = shape (M m) \<longleftrightarrow> shape (M m) = (60, 60, 12))"
    unfolding Zeeman_field_explicit global_dims by auto
  have c: "curl m \<noteq> None \<longleftrightarrow> shape (M m) = (60, 60, 12)"
    using curl_Some_global [of m] curl_global_Some [of m] by (auto simp: global_dims)
  have rest: "(\<exists>u. get_m m = Some u \<and> shape u = shape (M m)) \<and>
      (\<exists>L. laplace m = Some L \<and> shape L = shape (M m)) \<and>
      (\<exists>c. curl m = Some c \<and> shape c = shape (M m)) \<and>
      (\<forall>t. \<exists>e. effective_field t m = Some e \<and> shape e = shape (M m)) \<and>
      (\<forall>h_eff lam. shape h_eff = shape (M m) \<longrightarrow>
         (\<exists>r. update_M m h_eff lam = Some r \<and> shape r = shape (M m)))"
    if g: "shape (M m) = (60, 60, 12)"
  proof -
    have g': "shape (M m) = (Nx, Ny, Nz)"
      using g by (simp add: global_dims)
    have "\<exists>u. get_m m = Some u \<and> shape u = shape (M m)"
      by (simp add: get_m_explicit)
    moreover have "\<exists>L. laplace m = Some L \<and> shape L = shape (M m)"
      using laplace_shape [OF g] by (simp add: g)
    moreover have "\<exists>c. curl m = Some c \<and> shape c = shape (M m)"
      using curl_global_Some [OF g'] by (simp add: g')
    moreover have "\<forall>t. \<exists>e. effective_field t m = Some e \<and> shape e = shape (M m)"
      using effective_field_shape [OF g'] by (simp add: g')
    moreover have "\<forall>h_eff lam. shape h_eff = shape (M m) \<longrightarrow>
         (\<exists>r. update_M m h_eff lam = Some r \<and> shape r = shape (M m))"
      by (simp add: update_M_explicit)
    ultimately show ?thesis by blast
  qed
  show ?thesis
    using global_dims z c rest by blast
qed

theorem global_shape_contract_witness:
  "shape (M \<lparr>M = full (60, 60, 12) (Vec3 (Fin 0) (Fin 0) (Fin 1))\<rparr>) = (60, 60, 12) \<and>
   (\<exists>e. effective_field (Zeeman H) \<lparr>M = full (60, 60, 12) (Vec3 (Fin 0) (Fin 0) (Fin 1))\<rparr> = Some e \<and>
        shape e = (60, 60, 12)) \<and>
   (\<exists>c. curl \<lparr>M = full (60, 60, 12) (Vec3 (Fin 0) (Fin 0) (Fin 1))\<rparr> = Some c \<and> shape c = (60, 60, 12)) \<and>
   (\<exists>L. laplace \<lparr>M = full (60, 60, 12) (Vec3 (Fin 0) (Fin 0) (Fin 1))\<rparr> = Some L \<and> shape L = (60, 60, 12)) \<and>
   curl \<lparr>M = full (3, 3, 3) (Vec3 (Fin 0) (Fin 0) (Fin 1))\<rparr> = None \<and>
   (\<exists>e. effective_field (Zeeman H) \<lparr>M = full (3, 3, 3) (Vec3 (Fin 0) (Fin 0) (Fin 1))\<rparr> = Some e \<and>
        shape e = (60, 60, 12))"
proof -
  let ?g = "\<lparr>M = full (60, 60, 12) (Vec3 (Fin 0) (Fin 0) (Fin 1))\<rparr>"
  let ?b = "\<lparr>M = full (3, 3, 3) (Vec3 (Fin 0) (Fin 0) (Fin 1))\<rparr>"
  have s: "shape (M ?g) = (60, 60, 12)" and s': "shape (M ?b) \<noteq> (60, 60, 12)"
    by simp_all
  note g = global_shape_contract [of H ?g] and b = global_shape_contract [of H ?b]
  from g have z: "\<exists>e. effective_field (Zeeman H) ?g = Some e \<and> shape e = (60, 60, 12)"
    by blast
  from b have z': "\<exists>e. effective_field (Zeeman H) ?b = Some e \<and> shape e = (60, 60, 12)"
    by blast
  from g s have c: "\<exists>c. curl ?g = Some c \<and> shape c = (60, 60, 12)"
    by metis
  from g s have l: "\<exists>L. laplace ?g = Some L \<and> shape L = (60, 60, 12)"
    by metis
  from b s' have c': "curl ?b = None"
    by blast
  from s z c l c' z' show ?thesis
    by (intro conjI)
qed

subsection \<open>Energy densities\<close>

lemma fmul_commute: "fmul x y = fmul y x"
  by (cases x; cases y) (simp_all add: mult.commute)

lemma fmul_assoc: "fmul (fmul x y) z = fmul x (fmul y z)"
  by (cases x; cases y; cases z)
     (auto simp: inf_of_def zero_less_mult_iff mult_less_0_iff not_less order_le_less)

lemma density_factor_two:
  assumes "vfinite h"
  shows "density_zeeman (Fin s) u h = fmul (Fin 2) (density_half (Fin s) u h)"
proof -
  obtain p q r where h: "h = Vec3 (Fin p) (Fin q) (Fin r)"
    using assms by (auto simp: vfinite_iff)
  obtain x y z where u: "u = Vec3 x y z"
    by (cases u)
  have mu0: "mu0 \<noteq> 0"
    by (simp add: mu0_def)
  show ?thesis
    unfolding h u density_zeeman_def density_half_def
    by (cases x; cases y; cases z)
       (auto simp: vsum_def vzip_def vscal_def vmap_def inf_of_def mu0 algebra_simps
          zero_less_mult_iff mult_less_0_iff split: if_splits)
qed

lemma density_half_code:
  "fmul (Fin (- (mu0 / 2))) (vsum (scalv fmul ms (vzip fmul u e))) = density_half ms u e"
proof -
  have "fmul ms (fmul x y) = fmul (fmul x ms) y" for x y
    by (simp add: fmul_assoc [symmetric] fmul_commute [of ms x])
  then show ?thesis
    by (simp add: density_half_def scalv_def vscal_def vmap_def vzip_def)
qed

lemma energy_density_base:
  assumes "get_m m = Some u" "effective_field t m = Some e" "shape e = shape (M m)"
    and "\<And>h. t \<noteq> Zeeman h"
  shows "energy_density t m =
           Some (NDArray (shape (M m))
             (\<lambda>i j k. density_half (vnorm (data (M m) i j k)) (data u i j k) (data e i j k)))"
proof -
  have su: "shape u = shape (M m)"
    using assms(1) by (rule shape_get_m)
  show ?thesis
  proof (cases t)
    case (Exchange a)
    with assms(2) have "effective_field (Exchange a) m = Some e" by simp
    then show ?thesis
      unfolding Exchange
      by (simp add: assms(1,3) su ufunc2_same get_Ms_def density_half_code map_nd_def
          del: effective_field.simps)
  next
    case (DMI d)
    with assms(2) have "effective_field (DMI d) m = Some e" by simp
    then show ?thesis
      unfolding DMI
      by (simp add: assms(1,3) su ufunc2_same get_Ms_def density_half_code map_nd_def
          del: effective_field.simps)
  next
    case (Zeeman h)
    with assms(4) [of h] show ?thesis by blast
  qed
qed

lemma energy_density_Zeeman:
  assumes "get_m m = Some u" "shape (M m) = (Nx, Ny, Nz)" "effective_field (Zeeman h) m = Some e"
  shows "energy_density (Zeeman h) m =
           Some (NDArray (Nx, Ny, Nz)
             (\<lambda>i j k. density_zeeman (vnorm (data (M m) i j k)) (data u i j k) (data e i j k)))"
proof -
  have su: "shape u = (Nx, Ny, Nz)"
    using shape_get_m [OF assms(1)] assms(2) by simp
  have se: "shape e = (Nx, Ny, Nz)"
    using assms(3) unfolding Zeeman_field_explicit by auto
  show ?thesis
    by (simp add: assms su se ufunc2_same get_Ms_def density_zeeman_def
        del: effective_field.simps)
qed

lemma vnorm_finite: "vfinite v \<Longrightarrow> \<exists>s. vnorm v = Fin s"
  by (auto simp: vfinite_iff vnorm_def vsum_def vzip_def not_less add_nonneg_nonneg)

text \<open>
  C5. On a field of the global shape, with \<open>Ms\<close> the per-cell magnitude and \<open>unit\<close> the
  unit field: the energy density of Exchange and of DMI is, in every cell, \<open>-(mu0/2)\<close> times
  the sum over the three components of \<open>unit * Ms * effective_field\<close>, one number per cell;
  the energy density of Zeeman is \<open>-mu0 * Ms\<close> times the sum over the components of
  \<open>unit * H\<close>; and where the cell of the field and \<open>H\<close> are finite, the Zeeman density is
  exactly twice what the formula of Exchange and DMI gives for the field \<open>H\<close>.
\<close>

theorem energy_density_prefactor_law:
  assumes "shape (M m) = (Nx, Ny, Nz)"
  shows "\<exists>u. get_m m = Some u \<and>
    (\<forall>a. \<exists>e w. effective_field (Exchange a) m = Some e \<and> energy_density (Exchange a) m = Some w \<and>
       shape w = (Nx, Ny, Nz) \<and>
       (\<forall>i<Nx. \<forall>j<Ny. \<forall>k<Nz.
          data w i j k = density_half (vnorm (data (M m) i j k)) (data u i j k) (data e i j k))) \<and>
    (\<forall>d. \<exists>e w. effective_field (DMI d) m = Some e \<and> energy_density (DMI d) m = Some w \<and>
       shape w = (Nx, Ny, Nz) \<and>
       (\<forall>i<Nx. \<forall>j<Ny. \<forall>k<Nz.
          data w i j k = density_half (vnorm (data (M m) i j k)) (data u i j k) (data e i j k))) \<and>
    (\<forall>h. \<exists>w. energy_density (Zeeman h) m = Some w \<and> shape w = (Nx, Ny, Nz) \<and>
       (\<forall>i<Nx. \<forall>j<Ny. \<forall>k<Nz.
          data w i j k = density_zeeman (vnorm (data (M m) i j k)) (data u i j k) h \<and>
          (vfinite (data (M m) i j k) \<and> vfinite h \<longrightarrow>
             data w i j k = fmul (Fin 2) (density_half (vnorm (data (M m) i j k)) (data u i j k) h))))"
proof -
  obtain u where u: "get_m m = Some u"
    by (simp add: get_m_explicit)
  have base: "\<exists>e w. effective_field t m = Some e \<and> energy_density t m = Some w \<and>
       shape w = (Nx, Ny, Nz) \<and>
       (\<forall>i<Nx. \<forall>j<Ny. \<forall>k<Nz.
          data w i j k = density_half (vnorm (data (M m) i j k)) (data u i j k) (data e i j k))"
    if "\<And>h. t \<noteq> Zeeman h" for t
  proof -
    from effective_field_shape [OF assms, of t] obtain e
      where e: "effective_field t m = Some e" "shape e = shape (M m)"
      using assms by auto
    show ?thesis
      unfolding energy_density_base [OF u e that] e(1) by (simp add: assms)
  qed
  have zee: "\<exists>w. energy_density (Zeeman h) m = Some w \<and> shape w = (Nx, Ny, Nz) \<and>
       (\<forall>i<Nx. \<forall>j<Ny. \<forall>k<Nz.
          data w i j k = density_zeeman (vnorm (data (M m) i j k)) (data u i j k) h \<and>
          (vfinite (data (M m) i j k) \<and> vfinite h \<longrightarrow>
             data w i j k = fmul (Fin 2) (density_half (vnorm (data (M m) i j k)) (data u i j k) h)))"
    for h
  proof -
    obtain e where e: "effective_field (Zeeman h) m = Some e"
        and cell: "\<forall>i<Nx. \<forall>j<Ny. \<forall>k<Nz. data e i j k = h"
      unfolding Zeeman_field_explicit by (simp add: Zeeman_field_cell del: One_nat_def)
    have two: "density_zeeman (vnorm v) x h = fmul (Fin 2) (density_half (vnorm v) x h)"
      if "vfinite v" "vfinite h" for v x
      using vnorm_finite [OF that(1)] density_factor_two [OF that(2)] by auto
    show ?thesis
      unfolding energy_density_Zeeman [OF u assms e]
      using cell two by simp
  qed
  from u base [of "Exchange _"] base [of "DMI _"] zee show ?thesis
    by simp
qed

lemma H_value: "H = Vec3 (Fin 0) (Fin 0) (Fin (B / mu0))"
  by (simp add: H_def mu0_def)

lemma down_not_close:
  "\<not> vallclose0 atol_default (full (Nx, Ny, Nz) (Vec3 (Fin 0) (Fin 0) (Fin (- 2))))"
proof -
  have "(0::nat) < Nx" "(0::nat) < Ny" "(0::nat) < Nz"
    by (simp_all add: Nx_def Ny_def Nz_def)
  then show ?thesis
    by (auto simp: vallclose0_def all_cells_iff vall_def atol_default_def rtol_default_def)
qed

theorem energy_density_prefactor_law_witness:
  "shape (M \<lparr>M = full (Nx, Ny, Nz) (Vec3 (Fin 0) (Fin 0) (Fin (- 2)))\<rparr>) = (Nx, Ny, Nz) \<and>
   (\<exists>w. energy_density (Zeeman H) \<lparr>M = full (Nx, Ny, Nz) (Vec3 (Fin 0) (Fin 0) (Fin (- 2)))\<rparr> = Some w \<and>
        data w 0 0 0 = Fin (2 * B) \<and>
        data w 0 0 0 = fmul (Fin 2) (density_half (Fin 2) (Vec3 (Fin 0) (Fin 0) (Fin (- 1))) H))"
proof -
  let ?m = "\<lparr>M = full (Nx, Ny, Nz) (Vec3 (Fin 0) (Fin 0) (Fin (- 2)))\<rparr>"
  have s: "shape (M ?m) = (Nx, Ny, Nz)"
    by simp
  from energy_density_prefactor_law [OF s] obtain u w
    where u: "get_m ?m = Some u" and w: "energy_density (Zeeman H) ?m = Some w"
      and cells: "\<forall>i<Nx. \<forall>j<Ny. \<forall>k<Nz.
          data w i j k = density_zeeman (vnorm (data (M ?m) i j k)) (data u i j k) H \<and>
          (vfinite (data (M ?m) i j k) \<and> vfinite H \<longrightarrow>
             data w i j k = fmul (Fin 2) (density_half (vnorm (data (M ?m) i j k)) (data u i j k) H))"
    by blast
  have n: "vnorm (Vec3 (Fin 0) (Fin 0) (Fin (- 2))) = Fin 2"
    by (simp add: vnorm_def vsum_def vzip_def)
  have ue: "u = NDArray (Nx, Ny, Nz) (\<lambda>i j k. Vec3 (Fin 0) (Fin 0) (Fin (- 1)))"
    using u down_not_close by (simp add: get_m_explicit n) (simp add: vscal_def vmap_def)
  have in0: "(0::nat) < Nx" "(0::nat) < Ny" "(0::nat) < Nz"
    by (simp_all add: Nx_def Ny_def Nz_def)
  have fin: "vfinite (data (M ?m) 0 0 0)" "vfinite H"
    by (simp_all add: vfinite_iff H_value)
  from cells in0 fin
  have c1: "data w 0 0 0 = density_zeeman (vnorm (data (M ?m) 0 0 0)) (data u 0 0 0) H"
    and c2: "data w 0 0 0 = fmul (Fin 2) (density_half (vnorm (data (M ?m) 0 0 0)) (data u 0 0 0) H)"
    by blast+
  have mu0: "mu0 \<noteq> 0"
    by (simp add: mu0_def)
  have "density_zeeman (Fin 2) (Vec3 (Fin 0) (Fin 0) (Fin (- 1))) H = Fin (2 * B)"
    by (simp add: density_zeeman_def H_value vsum_def vzip_def mu0)
  with c1 c2 s w show ?thesis
    by (simp add: n ue)
qed

subsection \<open>The update keeps the magnitude\<close>

lemma update_cell_blend:
  "update_cell lam mo h =
     vscal fmul (vscal fdiv (blend_cell lam mo h) (vnorm (blend_cell lam mo h)))
                (vnorm (target_cell mo h))"
  by (simp add: update_cell_def)

lemma sum_squares_nonneg: "0 \<le> x * x + y * y + z * (z::real)"
  by (simp add: add_nonneg_nonneg)

lemma vnorm_Fin:
  "vnorm (Vec3 (Fin x) (Fin y) (Fin z)) = Fin (sqrt (x * x + y * y + z * z))"
  using sum_squares_nonneg [of x y z] by (simp add: vnorm_def vsum_def vzip_def not_less)

lemma norm_rescaled:
  assumes "sqrt (x * x + y * y + z * z) \<noteq> 0" "0 \<le> (s::real)"
  shows "sqrt (x / sqrt (x * x + y * y + z * z) * s * (x / sqrt (x * x + y * y + z * z) * s) +
               y / sqrt (x * x + y * y + z * z) * s * (y / sqrt (x * x + y * y + z * z) * s) +
               z / sqrt (x * x + y * y + z * z) * s * (z / sqrt (x * x + y * y + z * z) * s)) = s"
proof -
  define L where "L = sqrt (x * x + y * y + z * z)"
  have L0: "L \<noteq> 0"
    using assms(1) by (simp add: L_def)
  have LL: "L * L = x * x + y * y + z * z"
    using sum_squares_nonneg [of x y z] by (simp add: L_def)
  have "x / L * s * (x / L * s) + y / L * s * (y / L * s) + z / L * s * (z / L * s)
          = (x * x + y * y + z * z) / (L * L) * (s * s)"
    using L0 by (simp add: field_simps)
  also have "\<dots> = s * s"
    using L0 by (simp add: LL [symmetric])
  finally show ?thesis
    using assms(2) by (simp add: L_def)
qed

lemma target_cell_finite:
  assumes "sqrt (p * p + q * q + r * r) \<noteq> 0"
  shows "target_cell (Vec3 (Fin a) (Fin b) (Fin c)) (Vec3 (Fin p) (Fin q) (Fin r)) =
           Vec3 (Fin (sqrt (a * a + b * b + c * c) * (p / sqrt (p * p + q * q + r * r))))
                (Fin (sqrt (a * a + b * b + c * c) * (q / sqrt (p * p + q * q + r * r))))
                (Fin (sqrt (a * a + b * b + c * c) * (r / sqrt (p * p + q * q + r * r))))"
  using assms by (simp add: target_cell_def vnorm_Fin scalv_def vscal_def vmap_def)

lemma vnorm_target_cell:
  assumes "vfinite mo" "vfinite h" "vnorm h \<noteq> Fin 0"
  shows "vnorm (target_cell mo h) = vnorm mo \<and> vfinite (target_cell mo h)"
proof -
  obtain a b c where mo: "mo = Vec3 (Fin a) (Fin b) (Fin c)"
    using assms(1) by (auto simp: vfinite_iff)
  obtain p q r where h: "h = Vec3 (Fin p) (Fin q) (Fin r)"
    using assms(2) by (auto simp: vfinite_iff)
  have n: "sqrt (p * p + q * q + r * r) \<noteq> 0"
    using assms(3) by (simp add: h vnorm_Fin)
  have "sqrt (p / sqrt (p * p + q * q + r * r) * sqrt (a * a + b * b + c * c) * (p / sqrt (p * p + q * q + r * r) * sqrt (a * a + b * b + c * c)) +
               q / sqrt (p * p + q * q + r * r) * sqrt (a * a + b * b + c * c) * (q / sqrt (p * p + q * q + r * r) * sqrt (a * a + b * b + c * c)) +
               r / sqrt (p * p + q * q + r * r) * sqrt (a * a + b * b + c * c) * (r / sqrt (p * p + q * q + r * r) * sqrt (a * a + b * b + c * c)))
          = sqrt (a * a + b * b + c * c)"
    by (rule norm_rescaled [OF n]) simp
  then show ?thesis
    unfolding mo h target_cell_finite [OF n] vnorm_Fin
    by (simp add: vfinite_iff mult.commute)
qed

lemma vnorm_update_cell:
  assumes "vfinite mo" "vfinite h" "vnorm h \<noteq> Fin 0" "vnorm (blend_cell lam mo h) \<noteq> Fin 0"
  shows "vnorm (update_cell lam mo h) = vnorm mo"
proof -
  from vnorm_target_cell [OF assms(1-3)]
  have tn: "vnorm (target_cell mo h) = vnorm mo" and tf: "vfinite (target_cell mo h)"
    by simp_all
  obtain a b c where mo: "mo = Vec3 (Fin a) (Fin b) (Fin c)"
    using assms(1) by (auto simp: vfinite_iff)
  obtain t1 t2 t3 where t: "target_cell mo h = Vec3 (Fin t1) (Fin t2) (Fin t3)"
    using tf by (auto simp: vfinite_iff)
  have "\<exists>x y z. blend_cell lam mo h = Vec3 (Fin x) (Fin y) (Fin z)"
    unfolding blend_cell_def t unfolding mo
    by (simp add: vzip_def scalv_def vmap_def fsub_def)
  then obtain x y z where bl: "blend_cell lam mo h = Vec3 (Fin x) (Fin y) (Fin z)"
    by blast
  have L: "sqrt (x * x + y * y + z * z) \<noteq> 0"
    using assms(4) by (simp add: bl vnorm_Fin)
  have s: "vnorm mo = Fin (sqrt (a * a + b * b + c * c))"
    by (simp add: mo vnorm_Fin)
  show ?thesis
    unfolding update_cell_blend tn
    unfolding bl s vnorm_Fin
    using L norm_rescaled [OF L, of "sqrt (a * a + b * b + c * c)"]
    by (simp add: vscal_def vmap_def vnorm_Fin)
qed


lemma vbounded_finite: "vbounded v \<Longrightarrow> vfinite v"
proof -
  have "fbounded x \<Longrightarrow> is_fin x" for x
    by (cases x) simp_all
  then show "vbounded v \<Longrightarrow> vfinite v"
    by (auto simp: vbounded_def vfinite_def vall_def)
qed



subsection \<open>The relaxation loop\<close>

declare while_loop.simps [simp del]

lemma global_pos: "0 < Nx" "0 < Ny" "0 < Nz"
  by (simp_all add: Nx_def Ny_def Nz_def)

lemma energy_density_global:
  assumes "shape (M m) = (Nx, Ny, Nz)"
  shows "\<exists>w. energy_density t m = Some w \<and> shape w = (Nx, Ny, Nz)"
proof -
  obtain u where u: "get_m m = Some u"
    by (simp add: get_m_explicit)
  from effective_field_shape [OF assms, of t] obtain e
    where e: "effective_field t m = Some e" "shape e = (Nx, Ny, Nz)"
    by blast
  show ?thesis
  proof (cases "\<exists>h. t = Zeeman h")
    case True
    then obtain h where t: "t = Zeeman h" by blast
    show ?thesis
      using energy_density_Zeeman [OF u assms e(1) [unfolded t]] by (simp add: t)
  next
    case False
    then have "\<And>h. t \<noteq> Zeeman h" by blast
    from energy_density_base [OF u e(1) _ this] e(2) assms show ?thesis
      by simp
  qed
qed

lemma energy_global:
  assumes "shape (M m) = (Nx, Ny, Nz)"
  shows "\<exists>x. energy t m = Some x"
  using energy_density_global [OF assms, of t] by (auto simp: energy_def)

lemma cal_effective_field_global:
  assumes "shape (M m) = (Nx, Ny, Nz)"
  shows "\<exists>h e. cal_effective_field m = Some (h, e) \<and> shape h = (Nx, Ny, Nz)"
proof -
  from effective_field_shape [OF assms] obtain ex z d
    where f: "effective_field (Exchange A) m = Some ex" "shape ex = (Nx, Ny, Nz)"
      "effective_field (Zeeman H) m = Some z" "shape z = (Nx, Ny, Nz)"
      "effective_field (DMI D) m = Some d" "shape d = (Nx, Ny, Nz)"
    by metis
  from energy_global [OF assms] obtain e1 e2 e3
    where e: "energy (Exchange A) m = Some e1" "energy (Zeeman H) m = Some e2"
      "energy (DMI D) m = Some e3"
    by metis
  show ?thesis
    by (simp add: cal_effective_field_def f e ufunc2_same del: effective_field.simps)
qed

lemma cells_global_nonempty: "cells (Nx, Ny, Nz) \<noteq> []"
proof -
  have "(0, 0, 0) \<in> set (cells (Nx, Ny, Nz))"
    using global_pos by (simp add: set_cells)
  then show ?thesis by auto
qed

lemma amax_global:
  assumes "shape a = (Nx, Ny, Nz)"
  shows "\<exists>x. amax a = Some x"
proof -
  obtain c cs where "cells (Nx, Ny, Nz) = c # cs"
    using cells_global_nonempty by (cases "cells (Nx, Ny, Nz)") auto
  then show ?thesis
    by (simp add: amax_def entries_def assms)
qed

lemma max_change_global:
  assumes "shape (M m) = (Nx, Ny, Nz)" "shape h = (Nx, Ny, Nz)"
  shows "\<exists>x. max_change m h = Some x"
proof -
  obtain u where u: "get_m m = Some u" "shape u = (Nx, Ny, Nz)"
    using assms(1) by (simp add: get_m_explicit)
  obtain r where r: "update_M m h lamda_default = Some r" "shape r = (Nx, Ny, Nz)"
    using assms by (simp add: update_M_explicit)
  obtain u' where u': "get_m (set_M m r) = Some u'" "shape u' = (Nx, Ny, Nz)"
    using r(2) by (simp add: get_m_explicit set_M_def)
  have "\<exists>x. amax (map_nd (vmap fabs) (NDArray (Nx, Ny, Nz) (\<lambda>i j k. vzip fsub (data u' i j k) (data u i j k)))) = Some x"
    by (rule amax_global) simp
  then show ?thesis
    by (simp add: max_change_def u r u' ufunc2_same)
qed

lemma loop_body_max_change:
  assumes "loop_body tol m h = Some (m', h', e', stop)"
  shows "\<exists>x. max_change m h = Some x \<and> stop = isclose rtol_default tol x (Fin 0)"
  using assms
  by (auto simp: loop_body_def max_change_def bind_eq_Some_conv Let_def)

lemma loop_body_global:
  assumes "shape (M m) = (Nx, Ny, Nz)" "shape h = (Nx, Ny, Nz)"
  shows "\<exists>m' h' e' stop. loop_body tol m h = Some (m', h', e', stop) \<and>
           shape (M m') = (Nx, Ny, Nz) \<and> shape h' = (Nx, Ny, Nz)"
proof -
  obtain u where u: "get_m m = Some u" "shape u = (Nx, Ny, Nz)"
    using assms(1) by (simp add: get_m_explicit)
  obtain r where r: "update_M m h lamda_default = Some r" "shape r = (Nx, Ny, Nz)"
    using assms by (simp add: update_M_explicit)
  have sm: "shape (M (set_M m r)) = (Nx, Ny, Nz)"
    by (simp add: set_M_def r(2))
  obtain u' where u': "get_m (set_M m r) = Some u'" "shape u' = (Nx, Ny, Nz)"
    using sm by (simp add: get_m_explicit)
  from cal_effective_field_global [OF sm] obtain h' e'
    where c: "cal_effective_field (set_M m r) = Some (h', e')" "shape h' = (Nx, Ny, Nz)"
    by blast
  obtain x where x: "amax (map_nd (vmap fabs) (NDArray (Nx, Ny, Nz) (\<lambda>i j k. vzip fsub (data u' i j k) (data u i j k)))) = Some x"
    using amax_global [of "map_nd (vmap fabs) (NDArray (Nx, Ny, Nz) (\<lambda>i j k. vzip fsub (data u' i j k) (data u i j k)))"]
    by auto
  show ?thesis
    using sm by (simp add: loop_body_def u r u' c ufunc2_same x)
qed

lemma loop_body_pass:
  assumes "loop_body tol m h = Some (m', h', e', stop)"
  shows "update_pass (m, h, e) = Some (m', h', e')"
  using assms
  by (auto simp: loop_body_def update_pass_def bind_eq_Some_conv Let_def)

lemma update_pass_energy:
  assumes "update_pass st = Some (m', h', e')"
  shows "cal_effective_field m' = Some (h', e')"
  using assms
  by (cases st) (auto simp: update_pass_def bind_eq_Some_conv)

lemma after_passes_front:
  "after_passes (Suc n) st =
     (case update_pass st of None \<Rightarrow> None | Some st' \<Rightarrow> after_passes n st')"
proof (induction n)
  case 0
  show ?case by (simp split: option.splits)
next
  case (Suc n)
  have "after_passes (Suc (Suc n)) st =
          (case after_passes (Suc n) st of None \<Rightarrow> None | Some st' \<Rightarrow> update_pass st')"
    by simp
  also have "\<dots> = (case update_pass st of None \<Rightarrow> None | Some st' \<Rightarrow> after_passes (Suc n) st')"
    unfolding Suc.IH by (simp split: option.splits)
  finally show ?case .
qed

lemma after_passes_energy:
  assumes "after_passes (Suc n) st = Some (m', h', e')"
  shows "cal_effective_field m' = Some (h', e')"
  using assms by (auto split: option.splits dest: update_pass_energy)

lemma converged_in_pass_0:
  "converged_in_pass tol 0 (m, h, e) =
     (case max_change m h of None \<Rightarrow> False | Some x \<Rightarrow> isclose rtol_default tol x (Fin 0))"
  by (simp add: converged_in_pass_def)

lemma converged_in_pass_front:
  "converged_in_pass tol (Suc n) st =
     (case update_pass st of None \<Rightarrow> False | Some st' \<Rightarrow> converged_in_pass tol n st')"
  unfolding converged_in_pass_def after_passes_front
  by (simp split: option.splits)

lemma while_loop_passes:
  assumes "shape (M m) = (Nx, Ny, Nz)" "shape h = (Nx, Ny, Nz)" "count \<le> maxiter"
  shows "\<exists>m' e' c. while_loop tol count m h e = Some (m', e', c) \<and> count \<le> c \<and> c \<le> maxiter \<and>
           (\<forall>n. n < c - count \<longrightarrow> \<not> converged_in_pass tol n (m, h, e)) \<and>
           (c < maxiter \<longrightarrow> converged_in_pass tol (c - count) (m, h, e) \<and>
              (\<exists>h'. after_passes (c - count + 1) (m, h, e) = Some (m', h', e'))) \<and>
           (c = maxiter \<longrightarrow> (\<exists>h'. after_passes (maxiter - count) (m, h, e) = Some (m', h', e')))"
  using assms
proof (induction tol count m h e rule: while_loop.induct)
  case (1 tol count m h e)
  show ?case
  proof (cases "count < maxiter")
    case False
    with "1.prems" have cm: "count = maxiter" by simp
    have "while_loop tol count m h e = Some (m, e, count)"
      using False by (simp add: while_loop.simps [of tol count])
    then show ?thesis
      by (simp add: cm)
  next
    case True
    from loop_body_global [OF "1.prems"(1,2)] obtain m1 h1 e1 stop
      where b: "loop_body tol m h = Some (m1, h1, e1, stop)"
        and s: "shape (M m1) = (Nx, Ny, Nz)" "shape h1 = (Nx, Ny, Nz)"
      by blast
    note up = loop_body_pass [OF b, of e]
    from loop_body_max_change [OF b] obtain x
      where mc: "max_change m h = Some x" and st: "stop = isclose rtol_default tol x (Fin 0)"
      by blast
    show ?thesis
    proof (cases stop)
      case True
      have "while_loop tol count m h e = Some (m1, e1, count)"
        using \<open>count < maxiter\<close> b True by (simp add: while_loop.simps [of tol count])
      moreover have "converged_in_pass tol 0 (m, h, e)"
        using True st by (simp add: converged_in_pass_0 mc)
      moreover have "after_passes (Suc 0) (m, h, e) = Some (m1, h1, e1)"
        by (simp add: up)
      ultimately show ?thesis
        using \<open>count < maxiter\<close> by simp
    next
      case False
      have step: "while_loop tol count m h e = while_loop tol (count + 1) m1 h1 e1"
        using \<open>count < maxiter\<close> b False by (simp add: while_loop.simps [of tol count])
      have "count + 1 \<le> maxiter"
        using \<open>count < maxiter\<close> by simp
      from "1.IH" [OF \<open>count < maxiter\<close> b refl refl refl False s this]
      obtain m' e' c where r: "while_loop tol (count + 1) m1 h1 e1 = Some (m', e', c)"
        and c: "count + 1 \<le> c" "c \<le> maxiter"
        and nc: "\<forall>n. n < c - (count + 1) \<longrightarrow> \<not> converged_in_pass tol n (m1, h1, e1)"
        and lt: "c < maxiter \<longrightarrow> converged_in_pass tol (c - (count + 1)) (m1, h1, e1) \<and>
              (\<exists>h'. after_passes (c - (count + 1) + 1) (m1, h1, e1) = Some (m', h', e'))"
        and eq: "c = maxiter \<longrightarrow>
              (\<exists>h'. after_passes (maxiter - (count + 1)) (m1, h1, e1) = Some (m', h', e'))"
        by blast
      have d: "c - count = Suc (c - (count + 1))"
        using c by simp
      have d': "maxiter - count = Suc (maxiter - (count + 1))"
        using \<open>count < maxiter\<close> by simp
      have nc': "\<not> converged_in_pass tol n (m, h, e)" if "n < c - count" for n
      proof (cases n)
        case 0
        then show ?thesis using False st by (simp add: converged_in_pass_0 mc)
      next
        case (Suc n')
        with that d have "n' < c - (count + 1)" by simp
        with nc show ?thesis
          by (simp add: Suc converged_in_pass_front up)
      qed
      have lt': "converged_in_pass tol (c - count) (m, h, e) \<and>
              (\<exists>h'. after_passes (c - count + 1) (m, h, e) = Some (m', h', e'))" if "c < maxiter"
        using lt that unfolding d
        by (simp add: converged_in_pass_front after_passes_front up del: after_passes.simps)
      have eq': "\<exists>h'. after_passes (maxiter - count) (m, h, e) = Some (m', h', e')" if "c = maxiter"
        using eq that unfolding d'
        by (simp add: after_passes_front up del: after_passes.simps)
      from r c nc' lt' eq' show ?thesis
        unfolding step by auto
    qed
  qed
qed

lemma isclose_zero_iff:
  "isclose rtol_default tol x (Fin 0) \<longleftrightarrow> (\<exists>a. x = Fin a \<and> \<bar>a\<bar> \<le> tol)"
  by (cases x) simp_all

text \<open>
  C2. For every field of the global shape and every tolerance, \<open>Mean_field_difference\<close>
  returns: the mutated object, the final energy and a count of at most
  \<open>maxiter = 12000\<close>. The loop leaves at the first pass whose stop criterion holds, the
  criterion being that the largest absolute change of an entry of the unit field is a
  number within \<open>tol\<close> of zero (an absolute test, false for NaN); the count is then the
  number of passes before that one, and the object returned is the object after that pass.
  Otherwise it leaves after 12000 passes, with the object after those. A pass writes the
  array of \<open>update_M\<close> into the object and recomputes the effective field and the energy
  from it, so the energy returned is the energy of the object returned. The count is the
  cap exactly when no pass met the criterion.
\<close>

theorem Mean_field_difference_terminates:
  assumes "shape (M m) = (Nx, Ny, Nz)"
  shows "maxiter = 12000 \<and>
    (\<exists>h0 e0 m' e' count.
       cal_effective_field m = Some (h0, e0) \<and>
       Mean_field_difference m tol = Some (m', e', count) \<and> count \<le> maxiter \<and>
       (\<forall>n<count. \<not> converged_in_pass tol n (m, h0, e0)) \<and>
       (count < maxiter \<longrightarrow> converged_in_pass tol count (m, h0, e0) \<and>
          (\<exists>h'. after_passes (count + 1) (m, h0, e0) = Some (m', h', e'))) \<and>
       (count = maxiter \<longrightarrow> (\<exists>h'. after_passes maxiter (m, h0, e0) = Some (m', h', e'))) \<and>
       (count = maxiter \<longleftrightarrow> (\<forall>n<maxiter. \<not> converged_in_pass tol n (m, h0, e0))) \<and>
       (\<exists>h'. cal_effective_field m' = Some (h', e'))) \<and>
    (\<forall>x. isclose rtol_default tol x (Fin 0) \<longleftrightarrow> (\<exists>a. x = Fin a \<and> \<bar>a\<bar> \<le> tol))"
proof -
  from cal_effective_field_global [OF assms] obtain h0 e0
    where c: "cal_effective_field m = Some (h0, e0)" and sh: "shape h0 = (Nx, Ny, Nz)"
    by blast
  from while_loop_passes [OF assms sh, of 0 tol e0] obtain m' e' count
    where w: "while_loop tol 0 m h0 e0 = Some (m', e', count)" and le: "count \<le> maxiter"
      and nc: "\<forall>n<count. \<not> converged_in_pass tol n (m, h0, e0)"
      and lt: "count < maxiter \<longrightarrow> converged_in_pass tol count (m, h0, e0) \<and>
          (\<exists>h'. after_passes (count + 1) (m, h0, e0) = Some (m', h', e'))"
      and eq: "count = maxiter \<longrightarrow> (\<exists>h'. after_passes maxiter (m, h0, e0) = Some (m', h', e'))"
    by auto
  have r: "Mean_field_difference m tol = Some (m', e', count)"
    by (simp add: Mean_field_difference_def c w)
  have iff: "count = maxiter \<longleftrightarrow> (\<forall>n<maxiter. \<not> converged_in_pass tol n (m, h0, e0))"
    using le nc lt by (metis le_neq_implies_less)
  have mx: "maxiter = Suc 11999"
    by (simp add: maxiter_def)
  have en: "\<exists>h'. cal_effective_field m' = Some (h', e')"
  proof (cases "count < maxiter")
    case True
    with lt obtain h' where "after_passes (Suc count) (m, h0, e0) = Some (m', h', e')"
      by auto
    then show ?thesis
      by (blast dest: after_passes_energy)
  next
    case False
    with le eq obtain h' where "after_passes (Suc 11999) (m, h0, e0) = Some (m', h', e')"
      unfolding mx by auto
    then show ?thesis
      by (blast dest: after_passes_energy)
  qed
  have "maxiter = 12000"
    by (simp add: maxiter_def)
  with c r le nc lt eq iff en isclose_zero_iff show ?thesis
    by blast
qed

theorem Mean_field_difference_terminates_witness:
  "shape (M \<lparr>M = full (Nx, Ny, Nz) (Vec3 (Fin 0) (Fin 0) (Fin (- 384000)))\<rparr>) = (Nx, Ny, Nz) \<and>
   (\<exists>m' e' count.
      Mean_field_difference \<lparr>M = full (Nx, Ny, Nz) (Vec3 (Fin 0) (Fin 0) (Fin (- 384000)))\<rparr> tol_default
        = Some (m', e', count) \<and> count \<le> 12000)"
proof -
  let ?m = "\<lparr>M = full (Nx, Ny, Nz) (Vec3 (Fin 0) (Fin 0) (Fin (- 384000)))\<rparr>"
  have s: "shape (M ?m) = (Nx, Ny, Nz)"
    by simp
  from Mean_field_difference_terminates [OF s, of tol_default] obtain m' e' count
    where "Mean_field_difference ?m tol_default = Some (m', e', count)" "count \<le> maxiter"
      "maxiter = 12000"
    by blast
  with s show ?thesis
    by auto
qed

subsection \<open>Two runs\<close>

lemma Mean_field_difference_global:
  assumes "shape (M m) = (Nx, Ny, Nz)"
  shows "\<exists>m' e' count. Mean_field_difference m tol = Some (m', e', count)"
proof -
  from cal_effective_field_global [OF assms] obtain h0 e0
    where c: "cal_effective_field m = Some (h0, e0)" and sh: "shape h0 = (Nx, Ny, Nz)"
    by blast
  from while_loop_passes [OF assms sh, of 0 tol e0] obtain m' e' count
    where "while_loop tol 0 m h0 e0 = Some (m', e', count)"
    by auto
  then show ?thesis
    by (simp add: Mean_field_difference_def c)
qed

subsection \<open>The zero field\<close>

lemma field_is_iff:
  "field_is v a \<longleftrightarrow>
     (\<forall>i<n0 (shape a). \<forall>j<n1 (shape a). \<forall>k<n2 (shape a). data a i j k = v)"
  by (simp add: field_is_def all_cells_iff)

lemma field_is_global:
  "shape a = (Nx, Ny, Nz) \<Longrightarrow>
   field_is v a \<longleftrightarrow> (\<forall>i<Nx. \<forall>j<Ny. \<forall>k<Nz. data a i j k = v)"
  by (simp add: field_is_iff)

lemma fadd_zero_right [simp]: "fadd x (Fin 0) = x"
  by (cases x) simp_all

lemma vnorm_vnan [simp]: "vnorm vnan = NaN"
  by (simp add: vnorm_def vnan_def vsum_def vzip_def)

lemma fmul_NaN_right [simp]: "fmul x NaN = NaN"
  by (cases x) simp_all

lemma fadd_NaN_right [simp]: "fadd x NaN = NaN"
  by (cases x) simp_all

lemma fdiv_NaN_right [simp]: "fdiv x NaN = NaN"
  by (cases x) simp_all

lemma fsub_NaN_left [simp]: "fsub NaN x = NaN"
  by (simp add: fsub_def)

lemma update_cell_vnan: "update_cell lam vnan h = vnan"
  by (simp add: update_cell_def blend_cell_def target_cell_def scalv_def vscal_def vmap_def
      vzip_def vnan_def vnorm_vnan [unfolded vnan_def] vnorm_def vsum_def)

lemma update_cell_zero:
  assumes "b \<noteq> 0"
  shows "update_cell lam vzero (Vec3 (Fin 0) (Fin 0) (Fin b)) = vnan"
proof -
  have t: "target_cell vzero (Vec3 (Fin 0) (Fin 0) (Fin b)) = vzero"
    using assms by (simp add: target_cell_def vnorm_Fin scalv_def vscal_def vmap_def vzero_def)
  have bl: "blend_cell lam vzero (Vec3 (Fin 0) (Fin 0) (Fin b)) = vzero"
    unfolding blend_cell_def t
    by (simp add: vzip_def scalv_def vmap_def fsub_def vzero_def)
  show ?thesis
    unfolding update_cell_blend t bl
    by (simp add: vzero_def vscal_def vmap_def vnan_def vnorm_Fin)
qed

lemma zero_field_close:
  assumes "field_is vzero (M m)"
  shows "vallclose0 atol_default (M m)"
  using assms
  by (simp add: field_is_iff vallclose0_def all_cells_iff vall_def atol_default_def)

lemma get_m_zero:
  assumes "field_is vzero (M m)"
  shows "get_m m = Some (zeros_like (M m))"
  using zero_field_close [OF assms] by (simp add: get_m_def get_M_def)

lemma vfinite_vzero [simp]: "vfinite vzero"
  by (simp add: vfinite_iff vzero_def)

lemma laplace_zero:
  assumes "shape (M m) = (nx, ny, nz)" "0 < nx" "0 < ny" "0 < nz" "field_is vzero (M m)"
  shows "laplace m = Some (zeros_like (M m))"
proof -
  have steps: "dx \<noteq> 0" "dy \<noteq> 0" "dz \<noteq> 0"
    by (simp_all add: dx_def dy_def dz_def)
  have sd: "vscal fdiv (vzip fsub vzero (scalv fmul (Fin 2) vzero)) (Fin (h\<^sup>2)) = vzero"
    if "h \<noteq> 0" for h :: real
    using that by (simp add: vscal_def vzip_def scalv_def vmap_def vzero_def fsub_def)
  show ?thesis
    unfolding laplace_explicit [OF assms(1-4) get_m_zero [OF assms(5)]]
    by (simp add: sd steps zeros_like_def full_def assms(1))
qed

lemma curl_zero:
  assumes "shape (M m) = (Nx, Ny, Nz)" "field_is vzero (M m)"
  shows "curl m = Some (zeros_like (M m))"
proof -
  have steps: "dx \<noteq> 0" "dy \<noteq> 0" "dz \<noteq> 0"
    by (simp_all add: dx_def dy_def dz_def)
  have pad: "data (pad_constant vzero (zeros_like (M m))) i j k = vzero" for i j k
    by (simp add: data_pad_constant)
  show ?thesis
    unfolding curl_global [OF assms(1) get_m_zero [OF assms(2)]] Let_def pad
    by (simp add: fsub_def steps zeros_like_def full_def assms(1) vzero_def)
qed

lemma exchange_dmi_zero:
  assumes "field_is vzero (M m)"
  shows "effective_field (Exchange a) m = Some (zeros_like (M m))"
    and "effective_field (DMI d) m = Some (zeros_like (M m))"
  using zero_field_close [OF assms] by (simp_all add: get_M_def)

lemma Zeeman_field_is:
  "\<exists>e. effective_field (Zeeman h) m = Some e \<and> shape e = (Nx, Ny, Nz) \<and> field_is h e"
  unfolding Zeeman_field_explicit
  by (simp add: field_is_iff Zeeman_field_cell del: One_nat_def)

lemma foldl_fadd_zeros: "\<forall>x\<in>set xs. x = Fin 0 \<Longrightarrow> foldl fadd (Fin 0) xs = Fin 0"
  by (induction xs) simp_all

lemma foldl_fadd_NaN: "foldl fadd NaN xs = NaN"
  by (induction xs) simp_all

lemma sum_nd_zero:
  assumes "\<forall>i<n0 (shape a). \<forall>j<n1 (shape a). \<forall>k<n2 (shape a). data a i j k = Fin 0"
  shows "sum_nd a = Fin 0"
  unfolding sum_nd_def
  by (rule foldl_fadd_zeros) (use assms in \<open>auto simp: set_cells item_def\<close>)

lemma sum_nd_NaN:
  assumes "shape a = (Nx, Ny, Nz)" "\<forall>i<Nx. \<forall>j<Ny. \<forall>k<Nz. data a i j k = NaN"
  shows "sum_nd a = NaN"
proof -
  obtain c cs where c: "cells (Nx, Ny, Nz) = c # cs"
    using cells_global_nonempty by (cases "cells (Nx, Ny, Nz)") auto
  then have "c \<in> set (cells (Nx, Ny, Nz))"
    by simp
  then have "item a c = NaN"
    using assms(2) by (auto simp: set_cells item_def)
  then show ?thesis
    by (simp add: sum_nd_def assms(1) c foldl_fadd_NaN)
qed

lemma vzip_fadd_vzero [simp]: "vzip fadd vzero v = v" "vzip fadd v vzero = v"
  by (cases v; simp add: vzip_def vzero_def)+

lemma density_half_zero [simp]: "density_half (Fin 0) vzero vzero = Fin 0"
  by (simp add: density_half_def vsum_def vzip_def vscal_def vmap_def vzero_def)

lemma density_zeeman_zero:
  "vfinite h \<Longrightarrow> density_zeeman (Fin 0) vzero h = Fin 0"
  by (auto simp: density_zeeman_def vsum_def vzip_def vzero_def vfinite_iff)

lemma H_finite [simp]: "vfinite H"
  by (simp add: H_value vfinite_iff)

lemma energy_zero:
  assumes "shape (M m) = (Nx, Ny, Nz)" "field_is vzero (M m)"
  shows "energy (Exchange a) m = Some (Fin 0)" "energy (DMI d) m = Some (Fin 0)"
    "energy (Zeeman H) m = Some (Fin 0)"
proof -
  note u = get_m_zero [OF assms(2)]
  have cellz: "data (M m) i j k = vzero" if "i < Nx" "j < Ny" "k < Nz" for i j k
    using assms that by (simp add: field_is_iff)
  have base: "energy t m = Some (Fin 0)"
    if e: "effective_field t m = Some (zeros_like (M m))" and nz: "\<And>h. t \<noteq> Zeeman h" for t
  proof -
    have "sum_nd (map_nd (\<lambda>e. fmul e (Fin (dx * dy * dz)))
            (NDArray (shape (M m)) (\<lambda>i j k. density_half (vnorm (data (M m) i j k))
               (data (zeros_like (M m)) i j k) (data (zeros_like (M m)) i j k)))) = Fin 0"
      by (rule sum_nd_zero) (simp add: assms(1) cellz)
    then show ?thesis
      unfolding energy_def energy_density_base [OF u e _ nz, simplified] by simp
  qed
  from base [OF exchange_dmi_zero(1) [OF assms(2)]] show "energy (Exchange a) m = Some (Fin 0)"
    by simp
  from base [OF exchange_dmi_zero(2) [OF assms(2)]] show "energy (DMI d) m = Some (Fin 0)"
    by simp
  from Zeeman_field_is [of H m] obtain e where e: "effective_field (Zeeman H) m = Some e"
    and fe: "field_is H e" and se: "shape e = (Nx, Ny, Nz)"
    by blast
  have celle: "data e i j k = H" if "i < Nx" "j < Ny" "k < Nz" for i j k
    using fe se that by (simp add: field_is_iff)
  have "sum_nd (map_nd (\<lambda>e. fmul e (Fin (dx * dy * dz)))
          (NDArray (Nx, Ny, Nz) (\<lambda>i j k. density_zeeman (vnorm (data (M m) i j k))
             (data (zeros_like (M m)) i j k) (data e i j k)))) = Fin 0"
    by (rule sum_nd_zero) (simp add: cellz celle density_zeeman_zero)
  then show "energy (Zeeman H) m = Some (Fin 0)"
    unfolding energy_def energy_density_Zeeman [OF u assms(1) e] by simp
qed

lemma cal_effective_field_zero:
  assumes "shape (M m) = (Nx, Ny, Nz)" "field_is vzero (M m)"
  shows "\<exists>h0. cal_effective_field m = Some (h0, Fin 0) \<and> shape h0 = (Nx, Ny, Nz) \<and> field_is H h0"
proof -
  from Zeeman_field_is [of H m] obtain e where e: "effective_field (Zeeman H) m = Some e"
    and fe: "field_is H e" and se: "shape e = (Nx, Ny, Nz)"
    by blast
  show ?thesis
    using fe
    by (simp add: cal_effective_field_def exchange_dmi_zero [OF assms(2)] e se assms(1)
        energy_zero [OF assms] ufunc2_same field_is_iff del: effective_field.simps)
qed

subsection \<open>A field of NaN stays a field of NaN\<close>

lemma vall_vnan [simp]: "\<not> vall (\<lambda>x. isclose r a x (Fin 0)) vnan"
  by (simp add: vall_def vnan_def)

lemma nan_not_close:
  assumes "shape (M m) = (Nx, Ny, Nz)" "field_is vnan (M m)"
  shows "\<not> vallclose0 atol_default (M m)"
proof -
  have "data (M m) 0 0 0 = vnan"
    using assms global_pos by (simp add: field_is_iff)
  then have "\<not> vall (\<lambda>x. isclose rtol_default atol_default x (Fin 0)) (data (M m) 0 0 0)"
    by simp
  then show ?thesis
    using assms(1) global_pos unfolding vallclose0_def all_cells_iff by force
qed

lemma vscal_fdiv_vnan [simp]: "vscal fdiv vnan x = vnan"
  by (simp add: vscal_def vmap_def vnan_def)

lemma scalv_fmul_NaN [simp]: "scalv fmul NaN v = vnan"
  by (simp add: scalv_def vmap_def vnan_def)

lemma get_m_nan:
  assumes "shape (M m) = (Nx, Ny, Nz)" "field_is vnan (M m)"
  shows "\<exists>u. get_m m = Some u \<and> shape u = (Nx, Ny, Nz) \<and> field_is vnan u"
  using assms nan_not_close [OF assms]
  by (simp add: get_m_explicit field_is_iff)

lemma exchange_nan:
  assumes "shape (M m) = (Nx, Ny, Nz)" "field_is vnan (M m)"
  shows "\<exists>e. effective_field (Exchange a) m = Some e \<and> shape e = (Nx, Ny, Nz) \<and> field_is vnan e"
proof -
  from laplace_shape [OF assms(1) global_pos] obtain L
    where L: "laplace m = Some L" "shape L = (Nx, Ny, Nz)"
    by blast
  show ?thesis
    using assms nan_not_close [OF assms]
    by (simp add: L get_M_def get_Ms_def ufunc2_same field_is_iff)
qed

lemma density_half_NaN [simp]: "density_half NaN u e = NaN"
  by (simp add: density_half_def vscal_def vmap_def vzip_def vsum_def)

lemma energy_exchange_nan:
  assumes "shape (M m) = (Nx, Ny, Nz)" "field_is vnan (M m)"
  shows "energy (Exchange a) m = Some NaN"
proof -
  obtain u where u: "get_m m = Some u"
    by (simp add: get_m_explicit)
  from exchange_nan [OF assms, of a] obtain e
    where e: "effective_field (Exchange a) m = Some e" "shape e = shape (M m)"
    using assms(1) by auto
  have nz: "\<And>h. Exchange a \<noteq> Zeeman h"
    by simp
  have "sum_nd (map_nd (\<lambda>e. fmul e (Fin (dx * dy * dz)))
          (NDArray (shape (M m)) (\<lambda>i j k. density_half (vnorm (data (M m) i j k))
             (data u i j k) (data e i j k)))) = NaN"
    by (rule sum_nd_NaN) (use assms in \<open>simp_all add: field_is_iff\<close>)
  then show ?thesis
    unfolding energy_def energy_density_base [OF u e nz] by simp
qed

lemma cal_effective_field_nan:
  assumes "shape (M m) = (Nx, Ny, Nz)" "field_is vnan (M m)"
  shows "\<exists>h'. cal_effective_field m = Some (h', NaN) \<and> shape h' = (Nx, Ny, Nz)"
proof -
  from cal_effective_field_global [OF assms(1)] obtain h' e'
    where c: "cal_effective_field m = Some (h', e')" "shape h' = (Nx, Ny, Nz)"
    by blast
  from c(1) obtain e2 e3 where "e' = fadd (fadd NaN e2) e3"
    by (auto simp: cal_effective_field_def bind_eq_Some_conv energy_exchange_nan [OF assms]
        simp del: effective_field.simps)
  then have "e' = NaN" by simp
  with c show ?thesis by simp
qed

lemma foldl_fmax_NaN: "foldl fmax NaN xs = NaN"
  by (induction xs) simp_all

lemma amax_nan:
  assumes "shape a = (Nx, Ny, Nz)" "field_is vnan a"
  shows "amax a = Some NaN"
proof -
  obtain c cs where c: "cells (Nx, Ny, Nz) = c # cs"
    using cells_global_nonempty by (cases "cells (Nx, Ny, Nz)") auto
  then have "c \<in> set (cells (Nx, Ny, Nz))"
    by simp
  then have "item a c = vnan"
    using assms by (auto simp: set_cells item_def field_is_iff)
  then show ?thesis
    by (simp add: amax_def entries_def assms(1) c vnan_def foldl_fmax_NaN)
qed

lemma loop_body_to_nan:
  assumes "shape (M m) = (Nx, Ny, Nz)" "shape h = (Nx, Ny, Nz)"
    and "update_M m h lamda_default = Some r" "field_is vnan r"
  shows "\<exists>h'. loop_body tol m h = Some (set_M m r, h', NaN, False) \<and> shape h' = (Nx, Ny, Nz)"
proof -
  obtain u where u: "get_m m = Some u" "shape u = (Nx, Ny, Nz)"
    using assms(1) by (simp add: get_m_explicit)
  have sr: "shape r = (Nx, Ny, Nz)"
    using assms(1-3) by (simp add: update_M_explicit split: if_splits) auto
  have sm: "shape (M (set_M m r)) = (Nx, Ny, Nz)" and fm: "field_is vnan (M (set_M m r))"
    using sr assms(4) by (simp_all add: set_M_def)
  from get_m_nan [OF sm fm] obtain u' where u': "get_m (set_M m r) = Some u'"
    "shape u' = (Nx, Ny, Nz)" "field_is vnan u'"
    by blast
  from cal_effective_field_nan [OF sm fm] obtain h'
    where c: "cal_effective_field (set_M m r) = Some (h', NaN)" "shape h' = (Nx, Ny, Nz)"
    by blast
  have "field_is vnan (map_nd (vmap fabs) (NDArray (Nx, Ny, Nz) (\<lambda>i j k. vzip fsub (data u' i j k) (data u i j k))))"
    using u'(2,3) by (simp add: field_is_iff vzip_def vmap_def vnan_def)
  then have x: "amax (map_nd (vmap fabs) (NDArray (Nx, Ny, Nz) (\<lambda>i j k. vzip fsub (data u' i j k) (data u i j k)))) = Some NaN"
    by (intro amax_nan) simp
  show ?thesis
    by (simp add: loop_body_def u assms(3) u' c ufunc2_same x)
qed

lemma update_M_nan:
  assumes "shape (M m) = (Nx, Ny, Nz)" "shape h = (Nx, Ny, Nz)" "field_is vnan (M m)"
  shows "\<exists>r. update_M m h lam = Some r \<and> field_is vnan r"
  using assms by (simp add: update_M_explicit field_is_iff update_cell_vnan)

lemma while_loop_nan:
  assumes "shape (M m) = (Nx, Ny, Nz)" "shape h = (Nx, Ny, Nz)" "field_is vnan (M m)"
    and "count \<le> maxiter"
  shows "\<exists>m'. while_loop tol count m h NaN = Some (m', NaN, maxiter) \<and> field_is vnan (M m') \<and>
              shape (M m') = (Nx, Ny, Nz)"
  using assms
proof (induction "maxiter - count" arbitrary: count m h)
  case 0
  then have cm: "count = maxiter" by simp
  have "while_loop tol maxiter m h NaN = Some (m, NaN, maxiter)"
    by (simp add: while_loop.simps [of tol maxiter])
  with 0 show ?case by (simp add: cm)
next
  case (Suc n)
  then have lt: "count < maxiter" by simp
  from update_M_nan [OF Suc.prems(1-3)] obtain r
    where r: "update_M m h lamda_default = Some r" "field_is vnan r"
    by blast
  from loop_body_to_nan [OF Suc.prems(1,2) r] obtain h'
    where b: "loop_body tol m h = Some (set_M m r, h', NaN, False)" "shape h' = (Nx, Ny, Nz)"
    by blast
  have sr: "shape r = (Nx, Ny, Nz)"
    using Suc.prems(1,2) r(1) by (simp add: update_M_explicit split: if_splits) auto
  have sm: "shape (M (set_M m r)) = (Nx, Ny, Nz)" and fm: "field_is vnan (M (set_M m r))"
    using sr r(2) by (simp_all add: set_M_def)
  have n: "n = maxiter - (count + 1)"
    using Suc.hyps(2) by simp
  have le: "count + 1 \<le> maxiter"
    using lt by simp
  from Suc.hyps(1) [OF n sm b(2) fm le] obtain m'
    where "while_loop tol (count + 1) (set_M m r) h' NaN = Some (m', NaN, maxiter)"
      "field_is vnan (M m')" "shape (M m') = (Nx, Ny, Nz)"
    by blast
  moreover have "while_loop tol count m h NaN = while_loop tol (count + 1) (set_M m r) h' NaN"
    using lt b(1) by (simp add: while_loop.simps [of tol count])
  ultimately show ?case by simp
qed

subsection \<open>The relaxation of the zero field\<close>

lemma H_large: "1 < B / mu0"
proof -
  have "mu0 < 16 / 10 ^ 7"
    using pi_less_4 by (simp add: mu0_def)
  moreover have "0 < mu0"
    by (simp add: mu0_def)
  ultimately show ?thesis
    by (simp add: B_def field_simps)
qed

lemma vnorm_z: "vnorm (Vec3 (Fin 0) (Fin 0) (Fin x)) = Fin \<bar>x\<bar>"
  by (simp add: vnorm_Fin)

lemma vnorm_H: "vnorm H = Fin (B / mu0)"
proof -
  have "0 < B / mu0"
    using H_large by linarith
  then have "\<bar>B / mu0\<bar> = B / mu0"
    by (rule abs_of_pos)
  then show ?thesis
    unfolding H_value vnorm_z by (rule arg_cong)
qed

lemma H_not_zero: "H \<noteq> vzero"
proof
  assume "H = vzero"
  then have "c2 H = c2 vzero" by simp
  then have "B / mu0 = 0"
    unfolding H_value by (simp only: vec3.sel vzero_sel npfloat.inject)
  with H_large show False by linarith
qed

lemma update_M_zero_field:
  assumes "shape (M m) = (Nx, Ny, Nz)" "field_is vzero (M m)"
    and "shape h = (Nx, Ny, Nz)" "field_is H h"
  shows "\<exists>r. update_M m h lam = Some r \<and> field_is vnan r"
proof -
  define b where "b = B / mu0"
  have b: "1 < b"
    unfolding b_def by (rule H_large)
  have Hb: "H = Vec3 (Fin 0) (Fin 0) (Fin b)" and nb: "vnorm H = Fin b"
    unfolding b_def by (rule H_value, rule vnorm_H)
  have "data h 0 0 0 = H"
    using assms(3,4) global_pos by (simp add: field_is_iff)
  then have "\<not> isclose rtol_default atol_default (data (map_nd vnorm h) 0 0 0) (Fin 0)"
    using b by (simp add: nb atol_default_def)
  then have nc: "\<not> allclose0 atol_default (map_nd vnorm h)"
    using assms(3) global_pos unfolding allclose0_def all_cells_iff by force
  have "b \<noteq> 0"
    using b by simp
  then have "update_cell lam vzero H = vnan"
    unfolding Hb by (rule update_cell_zero)
  then show ?thesis
    using assms nc by (simp add: update_M_explicit field_is_iff)
qed

lemma Mean_field_difference_zero_field:
  assumes "shape (M m) = (Nx, Ny, Nz)" "field_is vzero (M m)"
  shows "\<exists>m'. Mean_field_difference m tol = Some (m', NaN, maxiter) \<and> field_is vnan (M m') \<and>
              shape (M m') = (Nx, Ny, Nz)"
proof -
  from cal_effective_field_zero [OF assms] obtain h0
    where c: "cal_effective_field m = Some (h0, Fin 0)" and sh: "shape h0 = (Nx, Ny, Nz)"
      and fh: "field_is H h0"
    by blast
  from update_M_zero_field [OF assms sh fh] obtain r
    where r: "update_M m h0 lamda_default = Some r" "field_is vnan r"
    by blast
  from loop_body_to_nan [OF assms(1) sh r] obtain h1
    where b: "loop_body tol m h0 = Some (set_M m r, h1, NaN, False)" "shape h1 = (Nx, Ny, Nz)"
    by blast
  have sr: "shape r = (Nx, Ny, Nz)"
    using assms(1) sh r(1) by (simp add: update_M_explicit split: if_splits) auto
  have sm: "shape (M (set_M m r)) = (Nx, Ny, Nz)" and fm: "field_is vnan (M (set_M m r))"
    using sr r(2) by (simp_all add: set_M_def)
  have "(1::nat) \<le> maxiter"
    by (simp add: maxiter_def)
  from while_loop_nan [OF sm b(2) fm this] obtain m'
    where w: "while_loop tol 1 (set_M m r) h1 NaN = Some (m', NaN, maxiter)"
      and m': "field_is vnan (M m')" "shape (M m') = (Nx, Ny, Nz)"
    by blast
  have "while_loop tol 0 m h0 (Fin 0) = while_loop tol 1 (set_M m r) h1 NaN"
    using b(1) by (simp add: while_loop.simps [of tol 0] maxiter_def)
  with w m' show ?thesis
    by (simp add: Mean_field_difference_def c)
qed

text \<open>
  C1 as stated fails twice on the all-zero field of the global shape. The effective
  field of Zeeman is the external field \<open>H = (0, 0, B / mu0)\<close> in every cell, not zero. And
  the relaxation does not return the field unchanged: the combined effective field is
  \<open>H\<close>, so \<open>update_M\<close> takes its second branch, where the blend is the zero vector and its
  renormalisation is 0/0; the field becomes NaN in every cell, no stop criterion holds,
  and the loop returns a NaN field and a NaN energy with the count at the cap of 12000.
\<close>

theorem zero_field_relax_counterexample:
  "field_is vzero (M \<lparr>M = full (Nx, Ny, Nz) vzero\<rparr>) \<and>
   (\<exists>e. effective_field (Zeeman H) \<lparr>M = full (Nx, Ny, Nz) vzero\<rparr> = Some e \<and>
        data e 0 0 0 = H \<and> H \<noteq> vzero) \<and>
   (\<exists>m'. Mean_field_difference \<lparr>M = full (Nx, Ny, Nz) vzero\<rparr> tol_default = Some (m', NaN, 12000) \<and>
         data (M m') 0 0 0 = Vec3 NaN NaN NaN \<and> M m' \<noteq> full (Nx, Ny, Nz) vzero)"
proof -
  let ?m = "\<lparr>M = full (Nx, Ny, Nz) vzero\<rparr>"
  have s: "shape (M ?m) = (Nx, Ny, Nz)" and z: "field_is vzero (M ?m)"
    by (simp_all add: field_is_iff)
  from Zeeman_field_is [of H ?m] obtain e
    where e: "effective_field (Zeeman H) ?m = Some e" "shape e = (Nx, Ny, Nz)" "field_is H e"
    by blast
  then have e0: "data e 0 0 0 = H"
    using global_pos by (simp add: field_is_iff)
  from Mean_field_difference_zero_field [OF s z, of tol_default] obtain m'
    where r: "Mean_field_difference ?m tol_default = Some (m', NaN, maxiter)"
      and n: "field_is vnan (M m')" "shape (M m') = (Nx, Ny, Nz)"
    by blast
  from n have m0: "data (M m') 0 0 0 = Vec3 NaN NaN NaN"
    using global_pos by (simp add: field_is_iff vnan_def)
  then have "data (M m') 0 0 0 \<noteq> data (full (Nx, Ny, Nz) vzero) 0 0 0"
    by (simp add: vzero_def)
  then have ne: "M m' \<noteq> full (Nx, Ny, Nz) vzero"
    by metis
  have "maxiter = 12000"
    by (simp add: maxiter_def)
  with z e(1) e0 H_not_zero r m0 ne show ?thesis
    by (simp del: effective_field.simps)
qed

text \<open>
  C1, amended. For an all-zero field of the global shape, \<open>laplace\<close>, \<open>curl\<close> and the
  effective fields of Exchange and DMI return the all-zero array of the shape of the
  field; the effective field of Zeeman has that shape and holds \<open>H\<close> in every cell (so it
  is all-zero only for \<open>H = 0\<close>); and the total energy that \<open>cal_effective_field\<close> computes
  for the field is 0.
\<close>

theorem zero_field_operators:
  assumes "shape (M m) = (Nx, Ny, Nz)" "field_is vzero (M m)"
  shows "laplace m = Some (zeros_like (M m)) \<and> curl m = Some (zeros_like (M m)) \<and>
         effective_field (Exchange a) m = Some (zeros_like (M m)) \<and>
         effective_field (DMI d) m = Some (zeros_like (M m)) \<and>
         shape (zeros_like (M m)) = shape (M m) \<and> field_is vzero (zeros_like (M m)) \<and>
         (\<exists>e. effective_field (Zeeman h) m = Some e \<and> shape e = shape (M m) \<and> field_is h e) \<and>
         (\<exists>h0. cal_effective_field m = Some (h0, Fin 0))"
proof -
  have "field_is vzero (zeros_like (M m))"
    by (simp add: field_is_iff)
  moreover have "\<exists>e. effective_field (Zeeman h) m = Some e \<and> shape e = shape (M m) \<and> field_is h e"
    using Zeeman_field_is [of h m] by (simp add: assms(1))
  moreover have "\<exists>h0. cal_effective_field m = Some (h0, Fin 0)"
    using cal_effective_field_zero [OF assms] by blast
  ultimately show ?thesis
    using laplace_zero [OF assms(1) global_pos assms(2)] curl_zero [OF assms]
      exchange_dmi_zero [OF assms(2)]
    by (simp del: effective_field.simps)
qed

theorem zero_field_operators_witness:
  "shape (M \<lparr>M = full (Nx, Ny, Nz) vzero\<rparr>) = (Nx, Ny, Nz) \<and>
   field_is vzero (M \<lparr>M = full (Nx, Ny, Nz) vzero\<rparr>) \<and>
   laplace \<lparr>M = full (Nx, Ny, Nz) vzero\<rparr> = Some (full (Nx, Ny, Nz) vzero) \<and>
   curl \<lparr>M = full (Nx, Ny, Nz) vzero\<rparr> = Some (full (Nx, Ny, Nz) vzero) \<and>
   effective_field (Exchange A) \<lparr>M = full (Nx, Ny, Nz) vzero\<rparr> = Some (full (Nx, Ny, Nz) vzero) \<and>
   effective_field (DMI D) \<lparr>M = full (Nx, Ny, Nz) vzero\<rparr> = Some (full (Nx, Ny, Nz) vzero) \<and>
   (\<exists>h0. cal_effective_field \<lparr>M = full (Nx, Ny, Nz) vzero\<rparr> = Some (h0, Fin 0))"
proof -
  let ?m = "\<lparr>M = full (Nx, Ny, Nz) vzero\<rparr>"
  have s: "shape (M ?m) = (Nx, Ny, Nz)" and z: "field_is vzero (M ?m)"
    by (simp_all add: field_is_iff)
  from zero_field_operators [OF s z, of A D H] s z show ?thesis
    by (simp add: zeros_like_def del: effective_field.simps)
qed

subsection \<open>The store version computes the same values on fresh addresses\<close>

lemma laplace_st_sim:
  assumes "laplace (object_M s ob) = Some L"
  shows "laplace_st ob s =
           Some (next_addr s,
                 s\<lparr>vec_arrays := (vec_arrays s)(next_addr s := L), next_addr := next_addr s + 1\<rparr>)"
  using assms
  by (auto simp: laplace_def laplace_st_def bind_eq_Some_conv new_vec_def iadd_vec_def Let_def)

lemma central_diff_st_sim:
  assumes "central_diff m_pad sel hi lo h = Some r" "num_arrays s t = zeros (Nx, Ny, Nz)"
  shows "central_diff_st m_pad sel hi lo h t s = Some (s\<lparr>num_arrays := (num_arrays s)(t := r)\<rparr>)"
  using assms
  by (auto simp: central_diff_def central_diff_st_def bind_eq_Some_conv iadd_num_def)

lemma curl_st_sim:
  assumes "curl (object_M s ob) = Some c"
  shows "\<exists>s'. curl_st ob s = Some (next_addr s, s') \<and>
              vec_arrays s' = (vec_arrays s)(next_addr s := c) \<and>
              objects s' = objects s \<and> next_addr s' = next_addr s + 7"
proof -
  from assms obtain u dzdy dydz dxdz dzdx dxdy dydx r0 curl1 r1 curl2 r2
    where u: "get_m (object_M s ob) = Some u"
      and d: "central_diff (pad_constant vzero u) c2 (1, 2, 1) (1, 0, 1) dy = Some dzdy"
        "central_diff (pad_constant vzero u) c1 (1, 1, 2) (1, 1, 0) dz = Some dydz"
        "central_diff (pad_constant vzero u) c0 (1, 1, 2) (1, 1, 0) dz = Some dxdz"
        "central_diff (pad_constant vzero u) c2 (2, 1, 1) (0, 1, 1) dx = Some dzdx"
        "central_diff (pad_constant vzero u) c0 (1, 2, 1) (1, 0, 1) dy = Some dxdy"
        "central_diff (pad_constant vzero u) c1 (2, 1, 1) (0, 1, 1) dx = Some dydx"
      and r: "ufunc2 fsub dzdy dydz = Some r0" "iadd add_c0 (zeros_like u) r0 = Some curl1"
        "ufunc2 fsub dxdz dzdx = Some r1" "iadd add_c1 curl1 r1 = Some curl2"
        "ufunc2 fsub dydx dxdy = Some r2" "iadd add_c2 curl2 r2 = Some c"
    by (auto simp: curl_def bind_eq_Some_conv Let_def)
  show ?thesis
    by (simp add: curl_st_def u new_vec_def new_num_def Let_def central_diff_st_sim d r iadd_vec_def
        del: One_nat_def)
qed

lemma extends_store_refl [simp]: "extends_store s s"
  by (simp add: extends_store_def)

lemma extends_store_trans:
  "extends_store s s' \<Longrightarrow> extends_store s' s'' \<Longrightarrow> extends_store s s''"
  by (auto simp: extends_store_def)

lemma extends_store_object:
  assumes "extends_store s s'" "objects s ob < next_addr s"
  shows "object_M s' ob = object_M s ob" "objects s' ob < next_addr s'"
  using assms by (auto simp: extends_store_def object_M_def)

lemma effective_field_st_sim:
  assumes "effective_field t (object_M s ob) = Some e"
  shows "\<exists>s'. effective_field_st t ob s = Some (e, s') \<and> extends_store s s'"
proof (cases t)
  case (Exchange a)
  show ?thesis
  proof (cases "vallclose0 atol_default (get_M (object_M s ob))")
    case True
    with assms show ?thesis by (simp add: Exchange)
  next
    case False
    with assms obtain L where L: "laplace (object_M s ob) = Some L"
      and e: "ufunc2 (scalv fmul)
                (map_nd (\<lambda>x. fdiv (Fin (2 * a)) (fmul (Fin mu0) x)) (get_Ms (object_M s ob))) L = Some e"
      by (auto simp: Exchange bind_eq_Some_conv)
    show ?thesis
      using False by (simp add: Exchange laplace_st_sim [OF L] e extends_store_def)
  qed
next
  case (DMI d)
  show ?thesis
  proof (cases "vallclose0 atol_default (get_M (object_M s ob))")
    case True
    with assms show ?thesis by (simp add: DMI)
  next
    case False
    with assms obtain c where c: "curl (object_M s ob) = Some c"
      and e: "ufunc2 (scalv fmul)
                (map_nd (\<lambda>x. fneg (fdiv (Fin (2 * d)) (fmul (Fin mu0) x))) (get_Ms (object_M s ob))) c = Some e"
      by (auto simp: DMI bind_eq_Some_conv)
    from curl_st_sim [OF c] obtain s' where s': "curl_st ob s = Some (next_addr s, s')"
      "vec_arrays s' = (vec_arrays s)(next_addr s := c)" "objects s' = objects s"
      "next_addr s' = next_addr s + 7"
      by blast
    show ?thesis
      using False by (simp add: DMI s' e extends_store_def)
  qed
next
  case (Zeeman h)
  with assms show ?thesis by simp
qed

lemma energy_density_st_sim:
  assumes "energy_density t (object_M s ob) = Some w" "objects s ob < next_addr s"
  shows "\<exists>s'. energy_density_st t ob s = Some (w, s') \<and> extends_store s s'"
proof -
  from assms(1) obtain u e where u: "get_m (object_M s ob) = Some u"
    and e: "effective_field t (object_M s ob) = Some e"
    by (cases t) (auto simp: bind_eq_Some_conv simp del: effective_field.simps)
  from effective_field_st_sim [OF e] obtain s'
    where s': "effective_field_st t ob s = Some (e, s')" "extends_store s s'"
    by blast
  note ob = extends_store_object(1) [OF s'(2) assms(2)]
  have "energy_density_st t ob s = Some (w, s')"
  proof (cases t)
    case (Exchange a)
    show ?thesis
      using assms(1) e s'(1) unfolding Exchange
      by (auto simp: u ob bind_eq_Some_conv simp del: effective_field.simps effective_field_st.simps)
  next
    case (DMI d)
    show ?thesis
      using assms(1) e s'(1) unfolding DMI
      by (auto simp: u ob bind_eq_Some_conv simp del: effective_field.simps effective_field_st.simps)
  next
    case (Zeeman h)
    show ?thesis
      using assms(1) e s'(1) unfolding Zeeman
      by (auto simp: u ob bind_eq_Some_conv simp del: effective_field.simps effective_field_st.simps)
  qed
  with s'(2) show ?thesis by blast
qed

lemma energy_st_sim:
  assumes "energy t (object_M s ob) = Some x" "objects s ob < next_addr s"
  shows "\<exists>s'. energy_st t ob s = Some (x, s') \<and> extends_store s s'"
proof -
  from assms(1) obtain w where w: "energy_density t (object_M s ob) = Some w"
    and x: "x = sum_nd (map_nd (\<lambda>e. fmul e (Fin (dx * dy * dz))) w)"
    by (auto simp: energy_def bind_eq_Some_conv)
  from energy_density_st_sim [OF w assms(2)] obtain s'
    where "energy_density_st t ob s = Some (w, s')" "extends_store s s'"
    by blast
  then show ?thesis
    by (auto simp: energy_st_def x)
qed

lemma cal_effective_field_st_sim:
  assumes "cal_effective_field (object_M s ob) = Some (h, e)" "objects s ob < next_addr s"
  shows "\<exists>s'. cal_effective_field_st ob s = Some ((h, e), s') \<and> extends_store s s'"
proof -
  let ?m = "object_M s ob"
  from assms(1) obtain ex z d t1 e1 e2 e3
    where f: "effective_field (Exchange A) ?m = Some ex" "effective_field (Zeeman H) ?m = Some z"
        "effective_field (DMI D) ?m = Some d"
      and sums: "ufunc2 (vzip fadd) ex z = Some t1" "ufunc2 (vzip fadd) t1 d = Some h"
      and en: "energy (Exchange A) ?m = Some e1" "energy (Zeeman H) ?m = Some e2"
        "energy (DMI D) ?m = Some e3"
      and e: "e = fadd (fadd e1 e2) e3"
    by (auto simp: cal_effective_field_def bind_eq_Some_conv simp del: effective_field.simps)
  from effective_field_st_sim [OF f(1)] obtain s1
    where s1: "effective_field_st (Exchange A) ob s = Some (ex, s1)" "extends_store s s1"
    by blast
  note o1 = extends_store_object [OF s1(2) assms(2)]
  from effective_field_st_sim [of "Zeeman H" s1 ob z] f(2) obtain s2
    where s2: "effective_field_st (Zeeman H) ob s1 = Some (z, s2)" "extends_store s1 s2"
    unfolding o1(1) by blast
  note o2 = extends_store_object [OF s2(2) o1(2)]
  from effective_field_st_sim [of "DMI D" s2 ob d] f(3) obtain s3
    where s3: "effective_field_st (DMI D) ob s2 = Some (d, s3)" "extends_store s2 s3"
    unfolding o2(1) o1(1) by blast
  note o3 = extends_store_object [OF s3(2) o2(2)]
  from energy_st_sim [of "Exchange A" s3 ob e1] en(1) o3(2) obtain s4
    where s4: "energy_st (Exchange A) ob s3 = Some (e1, s4)" "extends_store s3 s4"
    unfolding o3(1) o2(1) o1(1) by blast
  note o4 = extends_store_object [OF s4(2) o3(2)]
  from energy_st_sim [of "Zeeman H" s4 ob e2] en(2) o4(2) obtain s5
    where s5: "energy_st (Zeeman H) ob s4 = Some (e2, s5)" "extends_store s4 s5"
    unfolding o4(1) o3(1) o2(1) o1(1) by blast
  note o5 = extends_store_object [OF s5(2) o4(2)]
  from energy_st_sim [of "DMI D" s5 ob e3] en(3) o5(2) obtain s6
    where s6: "energy_st (DMI D) ob s5 = Some (e3, s6)" "extends_store s5 s6"
    unfolding o5(1) o4(1) o3(1) o2(1) o1(1) by blast
  have "extends_store s s6"
    using s1(2) s2(2) s3(2) s4(2) s5(2) s6(2) by (blast intro: extends_store_trans)
  moreover have "cal_effective_field_st ob s = Some ((h, e), s6)"
    by (simp add: cal_effective_field_st_def s1 s2 s3 s4 s5 s6 sums e
        del: effective_field_st.simps)
  ultimately show ?thesis by blast
qed

lemma update_M_st_sim:
  assumes "update_M (object_M s ob) h lam = Some r" "objects s ob < next_addr s"
  shows "\<exists>a s'. update_M_st ob h lam s = Some (a, s') \<and> extends_store s s' \<and>
                vec_arrays s' a = r \<and> a < next_addr s'"
proof (cases "allclose0 atol_default (map_nd vnorm h)")
  case True
  with assms show ?thesis
    by (auto simp: update_M_def update_M_st_def Let_def get_M_def object_M_def)
next
  case False
  have "update_M_st ob h lam s = Some (new_vec r s)"
    using assms(1) False
    by (auto simp: update_M_def update_M_st_def Let_def get_M_def object_M_def bind_eq_Some_conv)
  then show ?thesis
    by (auto simp: new_vec_def extends_store_def)
qed

lemma loop_body_st_sim:
  assumes "loop_body tol (object_M s ob) h = Some (m', h', e', stop)" "objects s ob < next_addr s"
  shows "\<exists>s'. loop_body_st tol ob h s = Some ((h', e', stop), s') \<and> object_M s' ob = m' \<and>
              run_extends ob s s' \<and> objects s' ob < next_addr s'"
proof -
  let ?m = "object_M s ob"
  from assms(1) obtain u r u' x
    where u: "get_m ?m = Some u" and r: "update_M ?m h lamda_default = Some r"
      and m': "m' = set_M ?m r" and u': "get_m m' = Some u'"
      and c: "cal_effective_field m' = Some (h', e')"
      and rest: "ufunc2 (vzip fsub) u' u \<bind> (\<lambda>diff. amax (map_nd (vmap fabs) diff)) = Some x"
        "stop = isclose rtol_default tol x (Fin 0)"
    by (auto simp: loop_body_def bind_eq_Some_conv Let_def)
  from update_M_st_sim [OF r assms(2)] obtain a s1
    where s1: "update_M_st ob h lamda_default s = Some (a, s1)" "extends_store s s1"
      "vec_arrays s1 a = r" "a < next_addr s1"
    by blast
  let ?s2 = "set_M_st ob a s1"
  have o2: "object_M ?s2 ob = m'" "objects ?s2 ob < next_addr ?s2"
    using s1(3,4) by (simp_all add: object_M_def set_M_st_def m' set_M_def)
  from cal_effective_field_st_sim [of ?s2 ob h' e'] c o2 obtain s3
    where s3: "cal_effective_field_st ob ?s2 = Some ((h', e'), s3)" "extends_store ?s2 s3"
    by auto
  note o3 = extends_store_object [OF s3(2) o2(2)]
  have "run_extends ob s s3"
    using s1(2) s3(2) by (auto simp: run_extends_def extends_store_def set_M_st_def)
  moreover have "loop_body_st tol ob h s = Some ((h', e', stop), s3)"
    using rest by (auto simp: loop_body_st_def u s1(1) o2(1) u' s3(1) Let_def bind_eq_Some_conv)
  ultimately show ?thesis
    using o3 o2(1) by auto
qed

declare while_loop_st.simps [simp del]

lemma run_extends_refl [simp]: "run_extends ob s s"
  by (simp add: run_extends_def)

lemma run_extends_trans:
  "run_extends ob s s' \<Longrightarrow> run_extends ob s' s'' \<Longrightarrow> run_extends ob s s''"
  by (auto simp: run_extends_def)

lemma extends_run_extends: "extends_store s s' \<Longrightarrow> run_extends ob s s'"
  by (auto simp: run_extends_def extends_store_def)

lemma while_loop_st_sim:
  assumes "while_loop tol count m h e = Some (m', e', c)" "object_M s ob = m"
    and "objects s ob < next_addr s"
  shows "\<exists>s'. while_loop_st tol count ob h e s = Some ((e', c), s') \<and> object_M s' ob = m' \<and>
              run_extends ob s s' \<and> objects s' ob < next_addr s'"
  using assms
proof (induction tol count m h e arbitrary: s rule: while_loop.induct)
  case (1 tol count m h e)
  show ?case
  proof (cases "count < maxiter")
    case False
    with "1.prems"(1) have "m' = m" "e' = e" "c = count"
      by (simp_all add: while_loop.simps [of tol count])
    moreover have "while_loop_st tol count ob h e s = Some ((e, count), s)"
      using False by (simp add: while_loop_st.simps [of tol count])
    ultimately show ?thesis
      using "1.prems"(2,3) by simp
  next
    case True
    with "1.prems"(1) obtain m1 h1 e1 stop
      where b: "loop_body tol m h = Some (m1, h1, e1, stop)"
      by (auto simp: while_loop.simps [of tol count] split: option.splits)
    from loop_body_st_sim [of tol s ob h m1 h1 e1 stop] b "1.prems"(2,3) obtain s1
      where s1: "loop_body_st tol ob h s = Some ((h1, e1, stop), s1)" "object_M s1 ob = m1"
        "run_extends ob s s1" "objects s1 ob < next_addr s1"
      by auto
    show ?thesis
    proof (cases stop)
      case True
      with "1.prems"(1) b \<open>count < maxiter\<close> have "m' = m1" "e' = e1" "c = count"
        by (simp_all add: while_loop.simps [of tol count])
      moreover have "while_loop_st tol count ob h e s = Some ((e1, count), s1)"
        using \<open>count < maxiter\<close> True s1(1) by (simp add: while_loop_st.simps [of tol count])
      ultimately show ?thesis
        using s1 by simp
    next
      case False
      with "1.prems"(1) b \<open>count < maxiter\<close>
      have r: "while_loop tol (count + 1) m1 h1 e1 = Some (m', e', c)"
        by (simp add: while_loop.simps [of tol count])
      from "1.IH" [OF \<open>count < maxiter\<close> b refl refl refl False r s1(2,4)] obtain s'
        where s': "while_loop_st tol (count + 1) ob h1 e1 s1 = Some ((e', c), s')"
          "object_M s' ob = m'" "run_extends ob s1 s'" "objects s' ob < next_addr s'"
        by blast
      have "while_loop_st tol count ob h e s = Some ((e', c), s')"
        using \<open>count < maxiter\<close> False s1(1) s'(1) by (simp add: while_loop_st.simps [of tol count])
      moreover have "run_extends ob s s'"
        using s1(3) s'(3) by (rule run_extends_trans)
      ultimately show ?thesis
        using s'(2,4) by simp
    qed
  qed
qed

lemma Mean_field_difference_st_sim:
  assumes "Mean_field_difference (object_M s ob) tol = Some (m', e', c)" "objects s ob < next_addr s"
  shows "\<exists>s'. Mean_field_difference_st ob tol s = Some ((e', c), s') \<and> object_M s' ob = m' \<and>
              run_extends ob s s' \<and> objects s' ob < next_addr s'"
proof -
  from assms(1) obtain h0 e0 where c: "cal_effective_field (object_M s ob) = Some (h0, e0)"
    and w: "while_loop tol 0 (object_M s ob) h0 e0 = Some (m', e', c)"
    by (auto simp: Mean_field_difference_def bind_eq_Some_conv)
  from cal_effective_field_st_sim [OF c assms(2)] obtain s1
    where s1: "cal_effective_field_st ob s = Some ((h0, e0), s1)" "extends_store s s1"
    by blast
  note o1 = extends_store_object [OF s1(2) assms(2)]
  from while_loop_st_sim [OF w o1] obtain s'
    where s': "while_loop_st tol 0 ob h0 e0 s1 = Some ((e', c), s')" "object_M s' ob = m'"
      "run_extends ob s1 s'" "objects s' ob < next_addr s'"
    by blast
  have "run_extends ob s s'"
    using extends_run_extends [OF s1(2)] s'(3) by (rule run_extends_trans)
  moreover have "Mean_field_difference_st ob tol s = Some ((e', c), s')"
    by (simp add: Mean_field_difference_st_def s1(1) s'(1))
  ultimately show ?thesis
    using s'(2,4) by simp
qed

text \<open>
  C8. Two objects of class \<open>M\<close> that hold equal arrays of the global shape (the same
  array, as the tests build them, or two copies) and the same constants. A run of
  \<open>Mean_field_difference\<close> on the first object and then a run on the second both
  return, with the same iteration count and the same final energy, and the two objects
  end with equal field arrays. The first run writes only to arrays it has created: the
  array of the second object holds after it what it held before, and the second object
  still refers to it. The count, the energy and the field are those that
  \<open>Mean_field_difference\<close> computes from the initial array as a value.
\<close>

theorem two_runs_identical:
  assumes "ob1 \<noteq> ob2" "vec_arrays s (objects s ob1) = vec_arrays s (objects s ob2)"
    and "objects s ob1 < next_addr s" "objects s ob2 < next_addr s"
    and "shape (vec_arrays s (objects s ob1)) = (Nx, Ny, Nz)"
  shows "\<exists>E1 count1 s1 E2 count2 s2.
           Mean_field_difference_st ob1 tol s = Some ((E1, count1), s1) \<and>
           Mean_field_difference_st ob2 tol s1 = Some ((E2, count2), s2) \<and>
           count1 = count2 \<and> E1 = E2 \<and>
           vec_arrays s2 (objects s2 ob1) = vec_arrays s2 (objects s2 ob2) \<and>
           vec_arrays s1 (objects s ob2) = vec_arrays s (objects s ob2) \<and>
           objects s1 ob2 = objects s ob2 \<and>
           Mean_field_difference \<lparr>M = vec_arrays s (objects s ob1)\<rparr> tol
             = Some (\<lparr>M = vec_arrays s2 (objects s2 ob1)\<rparr>, E1, count1)"
proof -
  have g: "shape (M (object_M s ob1)) = (Nx, Ny, Nz)"
    using assms(5) by (simp add: object_M_def)
  from Mean_field_difference_global [OF g, of tol] obtain m' e' c
    where r: "Mean_field_difference (object_M s ob1) tol = Some (m', e', c)"
    by blast
  from Mean_field_difference_st_sim [OF r assms(3)] obtain s1
    where s1: "Mean_field_difference_st ob1 tol s = Some ((e', c), s1)" "object_M s1 ob1 = m'"
      "run_extends ob1 s s1" "objects s1 ob1 < next_addr s1"
    by blast
  have keep: "objects s1 ob2 = objects s ob2"
    "vec_arrays s1 (objects s ob2) = vec_arrays s (objects s ob2)" "next_addr s \<le> next_addr s1"
    using s1(3) assms(1,4) by (auto simp: run_extends_def)
  have o2: "object_M s1 ob2 = object_M s ob1" "objects s1 ob2 < next_addr s1"
    using keep assms(2,4) by (simp_all add: object_M_def)
  from Mean_field_difference_st_sim [of s1 ob2 tol m' e' c] r o2 obtain s2
    where s2: "Mean_field_difference_st ob2 tol s1 = Some ((e', c), s2)" "object_M s2 ob2 = m'"
      "run_extends ob2 s1 s2"
    by auto
  have "objects s2 ob1 = objects s1 ob1" "vec_arrays s2 (objects s1 ob1) = vec_arrays s1 (objects s1 ob1)"
    using s2(3) s1(4) assms(1) by (auto simp: run_extends_def)
  then have "object_M s2 ob1 = m'"
    using s1(2) by (simp add: object_M_def)
  with s2(2) have "M (object_M s2 ob1) = M (object_M s2 ob2)"
    by simp
  then have "vec_arrays s2 (objects s2 ob1) = vec_arrays s2 (objects s2 ob2)"
    by (simp add: object_M_def)
  moreover have "Mean_field_difference \<lparr>M = vec_arrays s (objects s ob1)\<rparr> tol
             = Some (\<lparr>M = vec_arrays s2 (objects s2 ob1)\<rparr>, e', c)"
    using r \<open>object_M s2 ob1 = m'\<close> by (simp add: object_M_def)
  ultimately show ?thesis
    using s1(1) s2(1) keep by blast
qed

theorem two_runs_identical_witness:
  "(1::nat) \<noteq> 2 \<and>
   (\<exists>E1 count1 s1 E2 count2 s2.
      Mean_field_difference_st 1 tol_default
        \<lparr>vec_arrays = (\<lambda>a. full (Nx, Ny, Nz) (Vec3 (Fin 0) (Fin 0) (Fin (- 384000)))),
         num_arrays = (\<lambda>a. zeros (Nx, Ny, Nz)), next_addr = 1, objects = (\<lambda>ob. 0)\<rparr>
        = Some ((E1, count1), s1) \<and>
      Mean_field_difference_st 2 tol_default s1 = Some ((E2, count2), s2) \<and>
      count1 = count2 \<and> E1 = E2 \<and>
      vec_arrays s2 (objects s2 1) = vec_arrays s2 (objects s2 2) \<and>
      vec_arrays s1 0 = full (Nx, Ny, Nz) (Vec3 (Fin 0) (Fin 0) (Fin (- 384000))) \<and>
      objects s1 2 = 0)"
proof -
  let ?s = "\<lparr>vec_arrays = (\<lambda>a. full (Nx, Ny, Nz) (Vec3 (Fin 0) (Fin 0) (Fin (- 384000)))),
         num_arrays = (\<lambda>a. zeros (Nx, Ny, Nz)), next_addr = 1, objects = (\<lambda>ob. 0)\<rparr>"
  have a: "(1::nat) \<noteq> 2" "vec_arrays ?s (objects ?s 1) = vec_arrays ?s (objects ?s 2)"
    "objects ?s 1 < next_addr ?s" "objects ?s 2 < next_addr ?s"
    "shape (vec_arrays ?s (objects ?s 1)) = (Nx, Ny, Nz)"
    by simp_all
  from two_runs_identical [OF a, of tol_default] show ?thesis
    by simp blast
qed

end
